theory Spec2Isabelle
  imports Complex_Main
begin

section \<open>Pluri-Gaussian simulation (geone/pgs.py): the conditioning engine\<close>

text \<open>
  The development embeds the function \<open>pluriGaussianSim\<close> of \<open>src/geone/pgs.py\<close> from the
  comment "Note: format of data (x, v) not checked !" onwards: the preparation of the
  conditioning data, the kriging matrices, the update of the parameter dictionaries, the
  loop over realizations and tries (sequential initialisation, Metropolis-Hastings loop,
  generation of the latent fields on the grid) and the assembly of the output.

  Conventions of the embedding.
  \<^item> numpy's float64 numbers are modelled by \<open>real\<close>: rounding, infinities and NaN are
    outside the model.
  \<^item> an n-dimensional array is modelled by its data in C order (a list); an array of shape
    \<open>(n, d)\<close> is a list of rows.
  \<^item> the random generator (\<open>np.random\<close>), the linear solver (\<open>np.linalg.solve\<close>) and the
    field generator (\<open>multiGaussian.multiGaussianRun\<close>) are parameters of the model,
    collected in an environment; the state of the random generator and the printed
    messages are threaded through every function.
  \<^item> \<open>flag_value\<close> is a function of two reals; applied to arrays it acts elementwise.
  \<^item> an exception that leaves \<open>pluriGaussianSim\<close> is a value of type \<open>exn\<close>.
\<close>

subsection \<open>Python and numpy helpers\<close>

datatype exn = IndexError | TypeError | ValueError | KeyError | AttributeError

text \<open>An argument that is either a scalar or a sequence (\<open>hasattr(a, '__len__')\<close>).\<close>

datatype 'a arg = Scalar 'a | Seq "'a list"

text \<open>The space dimension \<open>d\<close>: 1, 2 or 3.\<close>

datatype sdim = D1 | D2 | D3

fun nat_of_sdim :: "sdim \<Rightarrow> nat" where
  "nat_of_sdim D1 = 1"
| "nat_of_sdim D2 = 2"
| "nat_of_sdim D3 = 3"

text \<open>Reading entry \<open>i\<close> of a one-dimensional numpy array: the indices \<open>0 .. n-1\<close> and
  \<open>-n .. -1\<close> (wrapped around) are valid, every other index raises IndexError.\<close>

definition np_get :: "'a list \<Rightarrow> int \<Rightarrow> exn + 'a" where
  "np_get xs i =
     (if 0 \<le> i \<and> i < int (length xs) then Inr (xs ! nat i)
      else if i < 0 \<and> - int (length xs) \<le> i then Inr (xs ! nat (int (length xs) + i))
      else Inl IndexError)"

text \<open>\<open>a[idx]\<close> for an array of indices: the first index out of range raises.\<close>

fun np_take :: "'a list \<Rightarrow> int list \<Rightarrow> exn + 'a list" where
  "np_take xs [] = Inr []"
| "np_take xs (i # is) =
     (case np_get xs i of
        Inl e \<Rightarrow> Inl e
      | Inr y \<Rightarrow> (case np_take xs is of Inl e \<Rightarrow> Inl e | Inr ys \<Rightarrow> Inr (y # ys)))"

text \<open>\<open>dimension[j]\<close>: a scalar is not subscriptable.\<close>

definition arg_get :: "'a arg \<Rightarrow> nat \<Rightarrow> exn + 'a" where
  "arg_get a j =
     (case a of
        Scalar _ \<Rightarrow> Inl TypeError
      | Seq l \<Rightarrow> (if j < length l then Inr (l ! j) else Inl IndexError))"

text \<open>Broadcasting of \<open>origin\<close> and \<open>spacing\<close> against the columns of \<open>x\<close>: a scalar is used
  for every column, a sequence (of length \<open>d\<close>, checked by the argument validation)
  gives one value per column.\<close>

definition bc :: "'a arg \<Rightarrow> nat \<Rightarrow> 'a" where
  "bc a j = (case a of Scalar s \<Rightarrow> s | Seq l \<Rightarrow> l ! j)"

text \<open>\<open>.astype(int)\<close> on a float: truncation toward zero.\<close>

definition astype_int :: "real \<Rightarrow> int" where
  "astype_int r = (if 0 \<le> r then \<lfloor>r\<rfloor> else \<lceil>r\<rceil>)"

text \<open>\<open>np.dot\<close> of two vectors.\<close>

definition dot :: "real list \<Rightarrow> real list \<Rightarrow> real" where
  "dot xs ys = sum_list (map2 (*) xs ys)"

subsection \<open>Grid-cell index of a conditioning point (lines 630-641)\<close>

text \<open>
  \<^verbatim>\<open>indc_f = (x-origin)/spacing
  indc = indc_f.astype(int)
  indc = indc - 1 * np.all((indc == indc_f, indc > 0), axis=0)\<close>
  for one component of one point.
\<close>

definition indc_comp :: "real \<Rightarrow> real \<Rightarrow> real \<Rightarrow> int" where
  "indc_comp orig sp c =
     (let indc_f = (c - orig) / sp;
          indc = astype_int indc_f
      in indc - (if real_of_int indc = indc_f \<and> indc > 0 then 1 else 0))"

definition indc_row :: "real arg \<Rightarrow> real arg \<Rightarrow> real list \<Rightarrow> int list" where
  "indc_row origin spacing row =
     map (\<lambda>j. indc_comp (bc origin j) (bc spacing j) (row ! j)) [0..<length row]"

text \<open>
  \<^verbatim>\<open>if d == 1:   indc = 1 * indc[:, 0]
  elif d == 2: indc = indc[:, 0] + dimension[0] * indc[:, 1]
  elif d == 3: indc = indc[:, 0] + dimension[0] * (indc[:, 1] + dimension[1] * indc[:, 2])\<close>
  The rows of \<open>x\<close> have length \<open>d\<close> (see \<open>reshape_rows\<close> below).
\<close>

definition node_index ::
  "sdim \<Rightarrow> int arg \<Rightarrow> real arg \<Rightarrow> real arg \<Rightarrow> real list list \<Rightarrow> exn + int list" where
  "node_index d dimension spacing origin x =
     (case d of
        D1 \<Rightarrow> Inr (map (\<lambda>row. indc_row origin spacing row ! 0) x)
      | D2 \<Rightarrow>
          (case arg_get dimension 0 of
             Inl e \<Rightarrow> Inl e
           | Inr nx \<Rightarrow>
               Inr (map (\<lambda>row. let i = indc_row origin spacing row
                               in i ! 0 + nx * i ! 1) x))
      | D3 \<Rightarrow>
          (case arg_get dimension 0 of
             Inl e \<Rightarrow> Inl e
           | Inr nx \<Rightarrow>
               (case arg_get dimension 1 of
                  Inl e \<Rightarrow> Inl e
                | Inr ny \<Rightarrow>
                    Inr (map (\<lambda>row. let i = indc_row origin spacing row
                                    in i ! 0 + nx * (i ! 1 + ny * i ! 2)) x))))"

subsection \<open>Acceptance probability of the Metropolis-Hastings loop (line 919)\<close>

text \<open>
  \<^verbatim>\<open>p_accept = accept_init * np.power(1.0 - nit/mh_iter_min, accept_pow)\<close>
  computed only when \<open>nit < mh_iter_min\<close>, where the base is positive.
\<close>

definition p_accept :: "real \<Rightarrow> real \<Rightarrow> int \<Rightarrow> int \<Rightarrow> real" where
  "p_accept accept_init accept_pow mh_iter_min nit =
     accept_init * (1 - real_of_int nit / real_of_int mh_iter_min) powr accept_pow"

subsection \<open>Messages, random state and external collaborators\<close>

text \<open>One constructor per \<open>print\<close> of the embedded part of the source.\<close>

datatype tfield = T1 | T2

datatype msg =
    ErrXNotGiven
  | ErrVNotGiven
  | ErrLengthV
  | ErrCondDiffer
  | WarnCondSame
  | InfoSimulation int int
  | InfoNewTrial int int int int
  | InfoSimFailed tfield
  | InfoKrigingInit tfield
  | InfoMHIter int int int int int
  | InfoKriging tfield
  | InfoCondFailed
  | InfoCondSimFailed tfield
  | WarnRetrievedAnyway
  | WarnMissing

text \<open>The state threaded through the simulation: the state of \<open>np.random\<close> and the
  messages printed so far.\<close>

record 'r world =
  rng :: 'r
  printed :: "msg list"

definition say :: "bool \<Rightarrow> msg \<Rightarrow> 'r world \<Rightarrow> 'r world" where
  "say c m w = (if c then w\<lparr>printed := printed w @ [m]\<rparr> else w)"

text \<open>Values stored in the parameter dictionaries \<open>params_T1\<close>, \<open>params_T2\<close>; the
  dictionaries live in a store, so that two names may denote the same object.\<close>

datatype pyval = PNone | PInt int | PFloat real | PArray "real list" | PStr string | PCallable nat

type_synonym dict = "string \<rightharpoonup> pyval"

type_synonym store = "nat \<Rightarrow> dict"

text \<open>The arguments of one call of \<open>multiGaussian.multiGaussianRun\<close>.\<close>

record gen_call =
  g_cov_model :: "real list \<Rightarrow> real"
  g_dimension :: "int arg"
  g_spacing :: "real arg"
  g_origin :: "real arg"
  g_x :: "real list list option"
  g_v :: "real list option"
  g_algo :: string
  g_params :: dict

text \<open>
  The environment: \<open>np.random.permutation\<close>, \<open>np.random.normal\<close> (\<open>loc\<close>, \<open>scale\<close>),
  \<open>np.random.random\<close>, \<open>np.linalg.solve\<close> (\<open>None\<close> when it raises: the source catches
  every exception of the call) and \<open>multiGaussianRun\<close> (\<open>None\<close> when it returns \<open>None\<close>;
  otherwise the first realization, \<open>sim[0]\<close>).
\<close>

record 'r env =
  np_random_permutation :: "nat \<Rightarrow> 'r \<Rightarrow> nat list \<times> 'r"
  np_random_normal :: "real \<Rightarrow> real \<Rightarrow> 'r \<Rightarrow> real \<times> 'r"
  np_random_random :: "'r \<Rightarrow> real \<times> 'r"
  np_linalg_solve :: "real list list \<Rightarrow> real list \<Rightarrow> real list option"
  multiGaussianRun :: "gen_call \<Rightarrow> 'r \<Rightarrow> real list option \<times> 'r"

text \<open>The outcome of a step of a try: an exception leaves the function, a failure
  (\<open>sim_ok = False\<close>) abandons the try, otherwise a value is produced.\<close>

datatype ('a, 'w) step = Raised exn | Failed 'w | Fine 'a 'w

subsection \<open>Arguments and conditioning data\<close>

text \<open>
  The local variables of \<open>pluriGaussianSim\<close> after the validation of the arguments and the
  resolution of the means and variances (lines 404-606): \<open>cov_model_T\<close> is the covariance
  function \<open>cov_model.func()\<close> of a lag vector, or \<open>None\<close>; \<open>mean_T\<close>, \<open>var_T\<close> are the
  flattened arrays; \<open>x_arg\<close> and \<open>v_arg\<close> hold the data of \<open>np.asarray(x, dtype='float')\<close> and
  \<open>np.asarray(v, dtype='float')\<close>; \<open>params_T1\<close>, \<open>params_T2\<close> are references into the store.
\<close>

record args =
  flag_value :: "real \<Rightarrow> real \<Rightarrow> real"
  d_arg :: sdim
  dimension :: "int arg"
  spacing :: "real arg"
  origin :: "real arg"
  x_arg :: "real list option"
  v_arg :: "real list option"
  cov_model_T1 :: "(real list \<Rightarrow> real) option"
  cov_model_T2 :: "(real list \<Rightarrow> real) option"
  mean_T1 :: "real list"
  mean_T2 :: "real list"
  var_T1 :: "real list option"
  var_T2 :: "real list option"
  algo_T1 :: string
  algo_T2 :: string
  params_T1 :: nat
  params_T2 :: nat
  accept_init :: real
  accept_pow :: real
  mh_iter_min :: int
  mh_iter_max :: int
  ntry_max :: int
  retrieve_real_anyway :: bool
  nreal :: int
  full_output :: bool
  verbose :: int

text \<open>What the conditional case keeps of one latent field: whether it has a covariance
  model, its kriging matrix over the conditioning points and covariance at lag 0 (unbound
  in the source, and unused here, without a covariance model), its mean array and the index
  into it of every conditioning point.\<close>

record cfield =
  has_cov :: bool
  mat_T :: "real list list"
  cov0_T :: real
  mean_T :: "real list"
  x_mean_T_grid_ind :: "int list"

record cdata =
  x_c :: "real list list"
  v_c :: "real list"
  npt :: nat
  fld_T1 :: cfield
  fld_T2 :: cfield

fun fld :: "cdata \<Rightarrow> tfield \<Rightarrow> cfield" where
  "fld c T1 = fld_T1 c"
| "fld c T2 = fld_T2 c"

text \<open>\<open>v_T\<close> is an array of shape \<open>(npt, 2)\<close>: a list of pairs. \<open>col t\<close> reads column 0 or 1
  of a row, \<open>set_col t\<close> writes it.\<close>

fun col :: "tfield \<Rightarrow> real \<times> real \<Rightarrow> real" where
  "col T1 p = fst p"
| "col T2 p = snd p"

fun set_col :: "tfield \<Rightarrow> real \<Rightarrow> real \<times> real \<Rightarrow> real \<times> real" where
  "set_col T1 y p = (y, snd p)"
| "set_col T2 y p = (fst p, y)"

subsection \<open>Simple kriging and draw of one value (lines 852-866, 934-950, 956-972)\<close>

text \<open>
  \<open>sel\<close> is the sequence of indices of the neighbours (\<open>ind[:j]\<close> or \<open>indmat\<close>), \<open>k\<close> the
  index of the point, \<open>vals\<close> the column of \<open>v_T\<close> of the field.
  \<^verbatim>\<open>try:
      w = np.linalg.solve(mat[sel, :][:, sel], mat[sel, k])
  except:
      sim_ok = False
      break
  mu = mean[x_mean_grid_ind[k]] + (v_T[sel, c] - mean[x_mean_grid_ind[sel]]).dot(w)
  std = np.sqrt(np.maximum(0, cov0 - np.dot(w, mat[sel, k])))
  ... = np.random.normal(loc=mu, scale=std)\<close>
\<close>

definition krige_draw ::
  "'r env \<Rightarrow> cfield \<Rightarrow> real list \<Rightarrow> nat list \<Rightarrow> nat \<Rightarrow> 'r world \<Rightarrow> (real, 'r world) step" where
  "krige_draw env f vals sel k w =
     (let rhs = map (\<lambda>a. mat_T f ! a ! k) sel
      in case np_linalg_solve env (map (\<lambda>a. map (\<lambda>b. mat_T f ! a ! b) sel) sel) rhs of
           None \<Rightarrow> Failed w
         | Some wts \<Rightarrow>
             (case np_get (mean_T f) (x_mean_T_grid_ind f ! k) of
                Inl e \<Rightarrow> Raised e
              | Inr mk \<Rightarrow>
                  (case np_take (mean_T f) (map (\<lambda>a. x_mean_T_grid_ind f ! a) sel) of
                     Inl e \<Rightarrow> Raised e
                   | Inr ms \<Rightarrow>
                       (let mu = mk + dot (map2 (-) (map (\<lambda>a. vals ! a) sel) ms) wts;
                            std = sqrt (max 0 (cov0_T f - dot wts rhs));
                            dr = np_random_normal env mu std (rng w)
                        in Fine (fst dr) (w\<lparr>rng := snd dr\<rparr>)))))"

subsection \<open>Sequential initialisation of one field (lines 847-874, 877-904)\<close>

text \<open>
  \<^verbatim>\<open>for j, k in enumerate(ind):
      if cov_model is not None:
          ... v_T[k, c] = np.random.normal(loc=mu, scale=std)
      else:
          v_T[k, c] = mean[x_mean_grid_ind[k]]\<close>
  \<open>vis\<close> is \<open>ind[:j]\<close>, the second list is \<open>ind[j:]\<close>.
\<close>

fun seq_sim ::
  "'r env \<Rightarrow> cfield \<Rightarrow> tfield \<Rightarrow> nat list \<Rightarrow> nat list \<Rightarrow> (real \<times> real) list \<Rightarrow> 'r world
     \<Rightarrow> ((real \<times> real) list, 'r world) step" where
  "seq_sim env f t vis [] v_T w = Fine v_T w"
| "seq_sim env f t vis (k # rest) v_T w =
     (if has_cov f then
        (case krige_draw env f (map (col t) v_T) vis k w of
           Raised e \<Rightarrow> Raised e
         | Failed w' \<Rightarrow> Failed w'
         | Fine y w' \<Rightarrow> seq_sim env f t (vis @ [k]) rest (v_T[k := set_col t y (v_T ! k)]) w')
      else
        (case np_get (mean_T f) (x_mean_T_grid_ind f ! k) of
           Inl e \<Rightarrow> Raised e
         | Inr m \<Rightarrow> seq_sim env f t (vis @ [k]) rest (v_T[k := set_col t m (v_T ! k)]) w))"

definition init_T ::
  "'r env \<Rightarrow> args \<Rightarrow> cdata \<Rightarrow> tfield \<Rightarrow> (real \<times> real) list \<Rightarrow> 'r world
     \<Rightarrow> ((real \<times> real) list, 'r world) step" where
  "init_T env a c t v_T w =
     (let pr = np_random_permutation env (npt c) (rng w)
      in case seq_sim env (fld c t) t [] (fst pr) v_T (w\<lparr>rng := snd pr\<rparr>) of
           Raised e \<Rightarrow> Raised e
         | Failed w' \<Rightarrow> Failed (say (verbose a > 3) (InfoKrigingInit t) w')
         | Fine v_T' w' \<Rightarrow> Fine v_T' w')"

subsection \<open>Metropolis-Hastings loop (lines 906-985)\<close>

text \<open>\<open>hd_ok = flag_value(v_T[:, 0], v_T[:, 1]) == v\<close> and \<open>np.sum(hd_ok)\<close>.\<close>

definition hd_ok_of :: "(real \<Rightarrow> real \<Rightarrow> real) \<Rightarrow> (real \<times> real) list \<Rightarrow> real list \<Rightarrow> bool list" where
  "hd_ok_of fv v_T v = map2 (\<lambda>p vk. fv (fst p) (snd p) = vk) v_T v"

definition np_sum :: "bool list \<Rightarrow> nat" where
  "np_sum bs = length (filter (\<lambda>b. b) bs)"

text \<open>The candidate value of one field at \<open>x[k]\<close>, conditionally to all the other points
  (\<open>indmat = np.hstack((np.arange(k), np.arange(k+1, npt)))\<close>), or the mean without a
  covariance model.\<close>

definition candidate_T ::
  "'r env \<Rightarrow> args \<Rightarrow> cdata \<Rightarrow> tfield \<Rightarrow> (real \<times> real) list \<Rightarrow> nat \<Rightarrow> 'r world
     \<Rightarrow> (real, 'r world) step" where
  "candidate_T env a c t v_T k w =
     (if has_cov (fld c t) then
        (case krige_draw env (fld c t) (map (col t) v_T) ([0..<k] @ [Suc k..<npt c]) k w of
           Raised e \<Rightarrow> Raised e
         | Failed w' \<Rightarrow> Failed (say (verbose a > 3) (InfoKriging t) w')
         | Fine y w' \<Rightarrow> Fine y w')
      else
        (case np_get (mean_T (fld c t)) (x_mean_T_grid_ind (fld c t) ! k) of
           Inl e \<Rightarrow> Raised e
         | Inr m \<Rightarrow> Fine m w))"

text \<open>
  \<^verbatim>\<open>if flag_value(v_T_k_new[0], v_T_k_new[1]) == v[k]:
      v_T[k] = v_T_k_new
  elif nit < mh_iter_min and np.random.random() < p_accept:
      v_T[k] = v_T_k_new\<close>
\<close>

definition accept_candidate ::
  "'r env \<Rightarrow> args \<Rightarrow> cdata \<Rightarrow> int \<Rightarrow> nat \<Rightarrow> real \<times> real \<Rightarrow> (real \<times> real) list \<Rightarrow> 'r world
     \<Rightarrow> (real \<times> real) list \<times> 'r world" where
  "accept_candidate env a c nit k v_T_k_new v_T w =
     (if flag_value a (fst v_T_k_new) (snd v_T_k_new) = v_c c ! k then (v_T[k := v_T_k_new], w)
      else if nit < mh_iter_min a then
        (let ur = np_random_random env (rng w);
             w' = w\<lparr>rng := snd ur\<rparr>
         in if fst ur < p_accept (accept_init a) (accept_pow a) (mh_iter_min a) nit
            then (v_T[k := v_T_k_new], w')
            else (v_T, w'))
      else (v_T, w))"

text \<open>One sweep \<open>for k in ind\<close> of iteration \<open>nit\<close>; \<open>hd_ok\<close> is the array computed at the
  beginning of the iteration.\<close>

fun mh_sweep ::
  "'r env \<Rightarrow> args \<Rightarrow> cdata \<Rightarrow> int \<Rightarrow> bool list \<Rightarrow> nat list \<Rightarrow> (real \<times> real) list \<Rightarrow> 'r world
     \<Rightarrow> ((real \<times> real) list, 'r world) step" where
  "mh_sweep env a c nit hd_ok [] v_T w = Fine v_T w"
| "mh_sweep env a c nit hd_ok (k # ks) v_T w =
     (if nit \<ge> mh_iter_min a \<and> hd_ok ! k then mh_sweep env a c nit hd_ok ks v_T w
      else
        (case candidate_T env a c T1 v_T k w of
           Raised e \<Rightarrow> Raised e
         | Failed w1 \<Rightarrow> Failed w1
         | Fine y1 w1 \<Rightarrow>
             (case candidate_T env a c T2 v_T k w1 of
                Raised e \<Rightarrow> Raised e
              | Failed w2 \<Rightarrow> Failed w2
              | Fine y2 w2 \<Rightarrow>
                  (let r = accept_candidate env a c nit k (y1, y2) v_T w2
                   in mh_sweep env a c nit hd_ok ks (fst r) (snd r)))))"

text \<open>The result of the loop \<open>for nit in range(mh_iter_max)\<close>, when no kriging system
  failed: \<open>stop_mh\<close>, the list \<open>nhd_ok\<close> and the array \<open>v_T\<close>.\<close>

record mh_result =
  stop_mh :: bool
  nhd_ok :: "nat list"
  v_T_end :: "(real \<times> real) list"

text \<open>
  \<^verbatim>\<open>for nit in range(mh_iter_max):
      hd_ok = flag_value(v_T[:, 0], v_T[:, 1]) == v
      nhd_ok.append(np.sum(hd_ok))
      if nit >= mh_iter_min:
          if nhd_ok[-1] == npt:
              stop_mh = True
              break
      else:
          p_accept = ...
      if verbose > 4: print(...)
      ind = np.random.permutation(npt)
      for k in ind: ...
      if not sim_ok:
          break\<close>
  The arguments are the iteration \<open>nit\<close> about to start, and \<open>nhd_ok\<close>, \<open>v_T\<close> before it.
\<close>

function mh_loop ::
  "'r env \<Rightarrow> args \<Rightarrow> cdata \<Rightarrow> int \<Rightarrow> int \<Rightarrow> nat list \<Rightarrow> (real \<times> real) list \<Rightarrow> 'r world
     \<Rightarrow> (mh_result, 'r world) step" where
  "mh_loop env a c ireal nit nhd v_T w =
     (if nit < mh_iter_max a then
        (let hd_ok = hd_ok_of (flag_value a) v_T (v_c c);
             nhd' = nhd @ [np_sum hd_ok]
         in if nit \<ge> mh_iter_min a \<and> last nhd' = npt c then
              Fine \<lparr>stop_mh = True, nhd_ok = nhd', v_T_end = v_T\<rparr> w
            else
              (let w1 = say (verbose a > 4)
                          (InfoMHIter (ireal + 1) (nreal a) (nit + 1) (mh_iter_min a) (mh_iter_max a)) w;
                   pr = np_random_permutation env (npt c) (rng w1)
               in case mh_sweep env a c nit hd_ok (fst pr) v_T (w1\<lparr>rng := snd pr\<rparr>) of
                    Raised e \<Rightarrow> Raised e
                  | Failed w2 \<Rightarrow> Failed w2
                  | Fine v_T' w2 \<Rightarrow> mh_loop env a c ireal (nit + 1) nhd' v_T' w2))
      else Fine \<lparr>stop_mh = False, nhd_ok = nhd, v_T_end = v_T\<rparr> w)"
  by pat_completeness auto
termination
  by (relation "measure (\<lambda>(env, a, c, ireal, nit, nhd, v_T, w). nat (mh_iter_max a - nit))") auto

declare mh_loop.simps [simp del]

subsection \<open>The conditioning of one try (lines 845-992)\<close>

text \<open>
  Initialisation of \<open>T1\<close> and \<open>T2\<close> at the conditioning points, Metropolis-Hastings loop,
  and, when the loop was not stopped,
  \<^verbatim>\<open>hd_ok = flag_value(v_T[:, 0], v_T[:, 1]) == v
  nhd_ok.append(np.sum(hd_ok))\<close>
  The result is the pair of \<open>nhd_ok\<close> and \<open>v_T\<close>.
\<close>

definition conditioning ::
  "'r env \<Rightarrow> args \<Rightarrow> cdata \<Rightarrow> int \<Rightarrow> 'r world \<Rightarrow> (nat list \<times> (real \<times> real) list, 'r world) step" where
  "conditioning env a c ireal w =
     (case init_T env a c T1 (replicate (npt c) (0, 0)) w of
        Raised e \<Rightarrow> Raised e
      | Failed w1 \<Rightarrow> Failed w1
      | Fine v1 w1 \<Rightarrow>
          (case init_T env a c T2 v1 w1 of
             Raised e \<Rightarrow> Raised e
           | Failed w2 \<Rightarrow> Failed w2
           | Fine v2 w2 \<Rightarrow>
               (case mh_loop env a c ireal 0 [] v2 w2 of
                  Raised e \<Rightarrow> Raised e
                | Failed w3 \<Rightarrow> Failed w3
                | Fine r w3 \<Rightarrow>
                    (if \<not> stop_mh r then
                       Fine (nhd_ok r @ [np_sum (hd_ok_of (flag_value a) (v_T_end r) (v_c c))],
                             v_T_end r) w3
                     else Fine (nhd_ok r, v_T_end r) w3))))"

subsection \<open>Generation of a latent field on the grid (lines 808-840, 1000-1032)\<close>

fun cov_model :: "args \<Rightarrow> tfield \<Rightarrow> (real list \<Rightarrow> real) option" where
  "cov_model a T1 = cov_model_T1 a"
| "cov_model a T2 = cov_model_T2 a"

fun mean_of :: "args \<Rightarrow> tfield \<Rightarrow> real list" where
  "mean_of a T1 = mean_T1 a"
| "mean_of a T2 = mean_T2 a"

fun var_of :: "args \<Rightarrow> tfield \<Rightarrow> real list option" where
  "var_of a T1 = var_T1 a"
| "var_of a T2 = var_T2 a"

fun algo :: "args \<Rightarrow> tfield \<Rightarrow> string" where
  "algo a T1 = algo_T1 a"
| "algo a T2 = algo_T2 a"

fun params :: "args \<Rightarrow> tfield \<Rightarrow> nat" where
  "params a T1 = params_T1 a"
| "params a T2 = params_T2 a"

text \<open>\<open>params['mean'].reshape(1, *dimension[::-1])\<close> and its first entry: the data of
  the array when its size is the number of cells (the entries of \<open>dimension\<close> are taken
  non-negative).\<close>

definition mean_field :: "args \<Rightarrow> dict \<Rightarrow> exn + real list" where
  "mean_field a p =
     (case p ''mean'' of
        None \<Rightarrow> Inl KeyError
      | Some (PArray m) \<Rightarrow>
          (case dimension a of
             Scalar _ \<Rightarrow> Inl TypeError
           | Seq l \<Rightarrow> if int (length m) = prod_list l then Inr m else Inl ValueError)
      | Some _ \<Rightarrow> Inl AttributeError)"

text \<open>
  \<^verbatim>\<open>if cov_model is not None:
      sim = multiGaussian.multiGaussianRun(cov_model, dimension, spacing, origin, x=x, v=v_T[:, c],
                mode='simulation', algo=algo, output_mode='array', **params, nreal=1)
  else:
      sim = params['mean'].reshape(1,*dimension[::-1])\<close>
  The result is \<open>None\<close> when \<open>sim is None\<close>, and \<open>sim[0]\<close> otherwise.
\<close>

definition generate ::
  "'r env \<Rightarrow> args \<Rightarrow> store \<Rightarrow> tfield \<Rightarrow> (real list list \<times> real list) option \<Rightarrow> 'r world
     \<Rightarrow> exn + real list option \<times> 'r world" where
  "generate env a st t xv w =
     (case cov_model a t of
        Some cf \<Rightarrow>
          (let res = multiGaussianRun env
                       \<lparr>g_cov_model = cf, g_dimension = dimension a, g_spacing = spacing a,
                        g_origin = origin a, g_x = map_option fst xv, g_v = map_option snd xv,
                        g_algo = algo a t, g_params = st (params a t)\<rparr> (rng w)
           in Inr (fst res, w\<lparr>rng := snd res\<rparr>))
      | None \<Rightarrow>
          (case mean_field a (st (params a t)) of
             Inl e \<Rightarrow> Inl e
           | Inr m \<Rightarrow> Inr (Some m, w)))"

subsection \<open>One try, the tries of a realization, the realizations (lines 796-1049)\<close>

record realization =
  Z_real :: "real list"
  T1_real :: "real list"
  T2_real :: "real list"
  n_cond_ok_real :: "nat list"

text \<open>
  One pass of the body of \<open>for ntry in range(ntry_max)\<close>. \<open>Failed\<close> is \<open>continue\<close> (the try
  is abandoned), \<open>Fine None\<close> is a \<open>break\<close> without a realization, \<open>Fine (Some r)\<close> is the
  \<open>break\<close> after \<open>Z.append(Z_real)\<close>. The argument \<open>cd\<close> is \<open>None\<close> in the unconditional
  case (\<open>x is None\<close>).
\<close>

definition one_try ::
  "'r env \<Rightarrow> args \<Rightarrow> cdata option \<Rightarrow> store \<Rightarrow> int \<Rightarrow> int \<Rightarrow> 'r world
     \<Rightarrow> (realization option, 'r world) step" where
  "one_try env a cd st ireal ntry w0 =
     (let w = say (verbose a > 3 \<and> ntry > 0)
                (InfoNewTrial (ntry + 1) (ntry_max a) (ireal + 1) (nreal a)) w0
      in case cd of
           None \<Rightarrow>
             (case generate env a st T1 None w of
                Inl e \<Rightarrow> Raised e
              | Inr (None, w1) \<Rightarrow> Failed (say (verbose a > 3) (InfoSimFailed T1) w1)
              | Inr (Some s1, w1) \<Rightarrow>
                  (case generate env a st T2 None w1 of
                     Inl e \<Rightarrow> Raised e
                   | Inr (None, w2) \<Rightarrow> Failed (say (verbose a > 3) (InfoSimFailed T2) w2)
                   | Inr (Some s2, w2) \<Rightarrow>
                       Fine (Some \<lparr>Z_real = map2 (flag_value a) s1 s2, T1_real = s1,
                                   T2_real = s2, n_cond_ok_real = []\<rparr>) w2))
         | Some c \<Rightarrow>
             (case conditioning env a c ireal w of
                Raised e \<Rightarrow> Raised e
              | Failed w1 \<Rightarrow> Failed w1
              | Fine r w1 \<Rightarrow>
                  (let nhd = fst r; v_T = snd r;
                       missed = (last nhd \<noteq> npt c);
                       w2 = say (missed \<and> verbose a > 3) InfoCondFailed w1
                   in if missed \<and> (ntry < ntry_max a - 1 \<or> \<not> retrieve_real_anyway a) then Failed w2
                      else
                        (case generate env a st T1 (Some (x_c c, map fst v_T)) w2 of
                           Inl e \<Rightarrow> Raised e
                         | Inr (None, w3) \<Rightarrow> Failed (say (verbose a > 3) (InfoCondSimFailed T1) w3)
                         | Inr (Some s1, w3) \<Rightarrow>
                             (case generate env a st T2 (Some (x_c c, map snd v_T)) w3 of
                                Inl e \<Rightarrow> Raised e
                              | Inr (None, w4) \<Rightarrow>
                                  Failed (say (verbose a > 3) (InfoCondSimFailed T2) w4)
                              | Inr (Some s2, w4) \<Rightarrow>
                                  (if missed \<and> \<not> retrieve_real_anyway a then Fine None w4
                                   else
                                     Fine (Some \<lparr>Z_real = map2 (flag_value a) s1 s2, T1_real = s1,
                                                 T2_real = s2, n_cond_ok_real = nhd\<rparr>)
                                       (say (missed \<and> verbose a > 1) WarnRetrievedAnyway w4)))))))"

text \<open>\<open>for ntry in range(ntry_max)\<close>, from try \<open>ntry\<close> on: the realization appended, if any.\<close>

function try_loop ::
  "'r env \<Rightarrow> args \<Rightarrow> cdata option \<Rightarrow> store \<Rightarrow> int \<Rightarrow> int \<Rightarrow> 'r world
     \<Rightarrow> exn + realization option \<times> 'r world" where
  "try_loop env a cd st ireal ntry w =
     (if ntry < ntry_max a then
        (case one_try env a cd st ireal ntry w of
           Raised e \<Rightarrow> Inl e
         | Failed w' \<Rightarrow> try_loop env a cd st ireal (ntry + 1) w'
         | Fine r w' \<Rightarrow> Inr (r, w'))
      else Inr (None, w))"
  by pat_completeness auto
termination
  by (relation "measure (\<lambda>(env, a, cd, st, ireal, ntry, w). nat (ntry_max a - ntry))") auto

declare try_loop.simps [simp del]

text \<open>\<open>for ireal in range(nreal)\<close>, from realization \<open>ireal\<close> on; \<open>rs\<close> collects what the
  source appends to \<open>Z\<close>, \<open>T1\<close>, \<open>T2\<close> and \<open>n_cond_ok\<close>.\<close>

function real_loop ::
  "'r env \<Rightarrow> args \<Rightarrow> cdata option \<Rightarrow> store \<Rightarrow> int \<Rightarrow> realization list \<Rightarrow> 'r world
     \<Rightarrow> exn + realization list \<times> 'r world" where
  "real_loop env a cd st ireal rs w =
     (if ireal < nreal a then
        (case try_loop env a cd st ireal 0
                (say (verbose a > 2) (InfoSimulation (ireal + 1) (nreal a)) w) of
           Inl e \<Rightarrow> Inl e
         | Inr (r, w') \<Rightarrow>
             real_loop env a cd st (ireal + 1) (case r of None \<Rightarrow> rs | Some z \<Rightarrow> rs @ [z]) w')
      else Inr (rs, w))"
  by pat_completeness auto
termination
  by (relation "measure (\<lambda>(env, a, cd, st, ireal, rs, w). nat (nreal a - ireal))") auto

declare real_loop.simps [simp del]

subsection \<open>Preparation of the conditioning data (lines 610-655)\<close>

text \<open>\<open>x.reshape(-1, d)\<close> on the data of \<open>x\<close>.\<close>

definition reshape_rows :: "nat \<Rightarrow> 'a list \<Rightarrow> exn + 'a list list" where
  "reshape_rows d xs =
     (if d = 0 \<or> length xs mod d \<noteq> 0 then Inl ValueError
      else Inr (map (\<lambda>i. take d (drop (i * d) xs)) [0..<length xs div d]))"

fun index_of :: "'a list \<Rightarrow> 'a \<Rightarrow> nat" where
  "index_of [] y = 0"
| "index_of (x # xs) y = (if x = y then 0 else Suc (index_of xs y))"

text \<open>\<open>np.unique(indc, return_inverse=True)\<close>: the sorted distinct values, and for every
  entry of \<open>indc\<close> its position among them.\<close>

definition np_unique :: "int list \<Rightarrow> int list \<times> nat list" where
  "np_unique indc = (let u = sort (remdups indc) in (u, map (index_of u) indc))"

text \<open>\<open>a[indc_inv == j]\<close>: the entries of \<open>a\<close> at the positions where \<open>indc_inv\<close> is \<open>j\<close>.\<close>

definition mask_select :: "'a list \<Rightarrow> nat list \<Rightarrow> nat \<Rightarrow> 'a list" where
  "mask_select xs indc_inv j = map fst (filter (\<lambda>p. snd p = j) (zip xs indc_inv))"

text \<open>\<open>[a[indc_inv==j][0] for j in range(n)]\<close>.\<close>

fun firsts :: "'a list \<Rightarrow> nat list \<Rightarrow> nat list \<Rightarrow> exn + 'a list" where
  "firsts xs indc_inv [] = Inr []"
| "firsts xs indc_inv (j # js) =
     (case np_get (mask_select xs indc_inv j) 0 of
        Inl e \<Rightarrow> Inl e
      | Inr y \<Rightarrow> (case firsts xs indc_inv js of Inl e \<Rightarrow> Inl e | Inr ys \<Rightarrow> Inr (y # ys)))"

text \<open>
  \<^verbatim>\<open>indc_unique, indc_inv = np.unique(indc, return_inverse=True)
  if len(indc_unique) != len(x):
      if np.any([len(np.unique(v[indc_inv==j])) > 1 for j in range(len(indc_unique))]):
          if verbose > 0: print('ERROR ...')
          return out
      else:
          if verbose > 1: print('WARNING ...')
          x = np.array([x[indc_inv==j][0] for j in range(len(indc_unique))])
          v = np.array([v[indc_inv==j][0] for j in range(len(indc_unique))])\<close>
  The result \<open>None\<close> is \<open>return out\<close>.
\<close>

definition cond_points ::
  "args \<Rightarrow> real list list \<Rightarrow> real list \<Rightarrow> int list \<Rightarrow> 'r world
     \<Rightarrow> exn + (real list list \<times> real list) option \<times> 'r world" where
  "cond_points a x v indc w =
     (let indc_unique = fst (np_unique indc);
          indc_inv = snd (np_unique indc)
      in if length indc_unique \<noteq> length x then
           (if list_ex (\<lambda>j. length (remdups (mask_select v indc_inv j)) > 1)
                 [0..<length indc_unique]
            then Inr (None, say (verbose a > 0) ErrCondDiffer w)
            else
              (case firsts x indc_inv [0..<length indc_unique] of
                 Inl e \<Rightarrow> Inl e
               | Inr x' \<Rightarrow>
                   (case firsts v indc_inv [0..<length indc_unique] of
                      Inl e \<Rightarrow> Inl e
                    | Inr v' \<Rightarrow> Inr (Some (x', v'), say (verbose a > 1) WarnCondSame w))))
         else Inr (Some (x, v), w))"

subsection \<open>Indices into the means and variances, kriging matrices (lines 657-763)\<close>

text \<open>
  \<^verbatim>\<open>if mean.size == 1: x_mean_grid_ind = np.zeros(npt, dtype='int')
  else: ... (the node index of every point of x, as above)\<close>
\<close>

definition x_mean_grid_ind :: "args \<Rightarrow> tfield \<Rightarrow> real list list \<Rightarrow> exn + int list" where
  "x_mean_grid_ind a t x =
     (if length (mean_of a t) = 1 then Inr (replicate (length x) 0)
      else node_index (d_arg a) (dimension a) (spacing a) (origin a) x)"

text \<open>
  \<^verbatim>\<open>if var.size == 1: x_var_grid_ind = np.zeros(npt, dtype='int')
  else:
      if x_mean_grid_ind is not None: x_var_grid_ind = x_mean_grid_ind
      else: ...\<close>
  \<open>x_mean_grid_ind\<close> has been assigned in both branches above, so the last branch is
  never taken.
\<close>

definition x_var_grid_ind :: "real list \<Rightarrow> int list \<Rightarrow> int list" where
  "x_var_grid_ind va mean_ind =
     (if length va = 1 then replicate (length mean_ind) 0 else mean_ind)"

text \<open>
  The matrix filled by
  \<^verbatim>\<open>mat = np.ones((npt, npt))
  for i in range(npt-1):
      h = x[(i+1):] - x[i]
      cov_h = cov_func(h)
      mat[i, (i+1):npt] = cov_h
      mat[(i+1):npt, i] = cov_h
      mat[i, i] = cov0\<close>
  and \<open>mat[-1,-1] = cov0\<close>: entry \<open>(i, j)\<close> with \<open>i < j\<close>, and entry \<open>(j, i)\<close>, are the
  covariance at lag \<open>x[j] - x[i]\<close>.
\<close>

definition kriging_matrix :: "(real list \<Rightarrow> real) \<Rightarrow> real \<Rightarrow> real list list \<Rightarrow> real list list" where
  "kriging_matrix cf cov0 x =
     map (\<lambda>i. map (\<lambda>j. if i = j then cov0
                       else if i < j then cf (map2 (-) (x ! j) (x ! i))
                       else cf (map2 (-) (x ! i) (x ! j)))
                [0..<length x])
         [0..<length x]"

text \<open>
  \<^verbatim>\<open>varUpdate = np.sqrt(var[x_var_grid_ind]/cov0)
  mat = varUpdate*(mat.T*varUpdate).T\<close>
\<close>

definition var_update :: "real list \<Rightarrow> real list list \<Rightarrow> real list list" where
  "var_update vu m =
     map (\<lambda>i. map (\<lambda>j. vu ! j * (m ! i ! j * vu ! i)) [0..<length m]) [0..<length m]"

text \<open>The data of one latent field for the conditional case; \<open>mat[-1,-1] = cov0\<close> raises
  IndexError on an empty matrix.\<close>

definition make_cfield :: "args \<Rightarrow> tfield \<Rightarrow> real list list \<Rightarrow> exn + cfield" where
  "make_cfield a t x =
     (case x_mean_grid_ind a t x of
        Inl e \<Rightarrow> Inl e
      | Inr gi \<Rightarrow>
          (case cov_model a t of
             None \<Rightarrow>
               Inr \<lparr>has_cov = False, mat_T = [], cov0_T = 0, mean_T = mean_of a t,
                    x_mean_T_grid_ind = gi\<rparr>
           | Some cf \<Rightarrow>
               (let cov0 = cf (replicate (nat_of_sdim (d_arg a)) 0)
                in if length x = 0 then Inl IndexError
                   else
                     (case var_of a t of
                        None \<Rightarrow>
                          Inr \<lparr>has_cov = True, mat_T = kriging_matrix cf cov0 x, cov0_T = cov0,
                               mean_T = mean_of a t, x_mean_T_grid_ind = gi\<rparr>
                      | Some va \<Rightarrow>
                          (case np_take va (x_var_grid_ind va gi) of
                             Inl e \<Rightarrow> Inl e
                           | Inr vs \<Rightarrow>
                               Inr \<lparr>has_cov = True,
                                    mat_T = var_update (map (\<lambda>y. sqrt (y / cov0)) vs)
                                              (kriging_matrix cf cov0 x),
                                    cov0_T = cov0, mean_T = mean_of a t,
                                    x_mean_T_grid_ind = gi\<rparr>)))))"

text \<open>The three ways out of the preparation: \<open>return out\<close>, the unconditional case, the
  conditional case with its data.\<close>

datatype prep = ReturnOut | Unconditional | Conditional cdata

definition prepare :: "args \<Rightarrow> 'r world \<Rightarrow> exn + prep \<times> 'r world" where
  "prepare a w =
     (case x_arg a of
        None \<Rightarrow>
          (case v_arg a of
             Some _ \<Rightarrow> Inr (ReturnOut, say (verbose a > 0) ErrXNotGiven w)
           | None \<Rightarrow> Inr (Unconditional, w))
      | Some xf \<Rightarrow>
          (case v_arg a of
             None \<Rightarrow> Inr (ReturnOut, say (verbose a > 0) ErrVNotGiven w)
           | Some v \<Rightarrow>
               (case reshape_rows (nat_of_sdim (d_arg a)) xf of
                  Inl e \<Rightarrow> Inl e
                | Inr x \<Rightarrow>
                    (if length v \<noteq> length x then Inr (ReturnOut, say (verbose a > 0) ErrLengthV w)
                     else
                       (case node_index (d_arg a) (dimension a) (spacing a) (origin a) x of
                          Inl e \<Rightarrow> Inl e
                        | Inr indc \<Rightarrow>
                            (case cond_points a x v indc w of
                               Inl e \<Rightarrow> Inl e
                             | Inr (None, w') \<Rightarrow> Inr (ReturnOut, w')
                             | Inr (Some xv, w') \<Rightarrow>
                                 (case make_cfield a T1 (fst xv) of
                                    Inl e \<Rightarrow> Inl e
                                  | Inr f1 \<Rightarrow>
                                      (case make_cfield a T2 (fst xv) of
                                         Inl e \<Rightarrow> Inl e
                                       | Inr f2 \<Rightarrow>
                                           Inr (Conditional
                                                  \<lparr>x_c = fst xv, v_c = snd xv,
                                                   npt = length (fst xv),
                                                   fld_T1 = f1, fld_T2 = f2\<rparr>, w')))))))))"

subsection \<open>Update of the parameter dictionaries (lines 765-787)\<close>

text \<open>\<open>mean.size == grid_size\<close>, where \<open>grid_size\<close> is \<open>dimension\<close> itself if \<open>d == 1\<close> and
  \<open>np.prod(dimension)\<close> otherwise: a size never equals a sequence.\<close>

definition size_is_grid_size :: "sdim \<Rightarrow> int arg \<Rightarrow> nat \<Rightarrow> bool" where
  "size_is_grid_size d dims m =
     (case dims of
        Scalar n \<Rightarrow> int m = n
      | Seq l \<Rightarrow> d \<noteq> D1 \<and> int m = prod_list l)"

text \<open>\<open>mean * np.ones(dimension[::-1])\<close> for a sequence \<open>dimension\<close> with non-negative
  entries: the one-dimensional \<open>mean\<close> is broadcast along the last axis, of length
  \<open>dimension[0]\<close>.\<close>

definition mean_times_ones :: "real list \<Rightarrow> int list \<Rightarrow> exn + real list" where
  "mean_times_ones m l =
     (case l of
        [] \<Rightarrow> Inr m
      | nx # rest \<Rightarrow>
          (if length m = 1 then Inr (replicate (nat (prod_list l)) (m ! 0))
           else if int (length m) = nx \<or> nx = 1 then Inr (concat (replicate (nat (prod_list rest)) m))
           else Inl ValueError))"

text \<open>
  \<^verbatim>\<open>if cov_model is not None:
      params['mean'] = mean
      params['var'] = var
  else:
      if mean.size == grid_size: params['mean'] = mean.reshape(*dimension[::-1])
      else:                      params['mean'] = mean * np.ones(dimension[::-1])\<close>
\<close>

definition set_mean_var :: "args \<Rightarrow> tfield \<Rightarrow> store \<Rightarrow> exn + store" where
  "set_mean_var a t st =
     (let p = params a t
      in case cov_model a t of
           Some _ \<Rightarrow>
             Inr (st(p := (st p)(''mean'' \<mapsto> PArray (mean_of a t),
                                 ''var'' \<mapsto> (case var_of a t of None \<Rightarrow> PNone
                                              | Some va \<Rightarrow> PArray va))))
         | None \<Rightarrow>
             (case dimension a of
                Scalar _ \<Rightarrow> Inl TypeError
              | Seq l \<Rightarrow>
                  (if size_is_grid_size (d_arg a) (dimension a) (length (mean_of a t))
                   then Inr (st(p := (st p)(''mean'' \<mapsto> PArray (mean_of a t))))
                   else
                     (case mean_times_ones (mean_of a t) l of
                        Inl e \<Rightarrow> Inl e
                      | Inr g \<Rightarrow> Inr (st(p := (st p)(''mean'' \<mapsto> PArray g)))))))"

text \<open>\<open>if 'verbose' not in params.keys(): params['verbose'] = 0\<close>.\<close>

definition set_verbose :: "args \<Rightarrow> tfield \<Rightarrow> store \<Rightarrow> store" where
  "set_verbose a t st =
     (let p = params a t
      in if st p ''verbose'' = None then st(p := (st p)(''verbose'' \<mapsto> PInt 0)) else st)"

text \<open>Lines 765-787; the store is returned as it is when an exception is raised.\<close>

definition set_params :: "args \<Rightarrow> store \<Rightarrow> store \<times> exn option" where
  "set_params a st =
     (case set_mean_var a T1 st of
        Inl e \<Rightarrow> (st, Some e)
      | Inr st1 \<Rightarrow>
          (case set_mean_var a T2 st1 of
             Inl e \<Rightarrow> (st1, Some e)
           | Inr st2 \<Rightarrow> (set_verbose a T2 (set_verbose a T1 st2), None)))"

subsection \<open>The function \<open>pluriGaussianSim\<close> (from line 608)\<close>

datatype ret =
    RetNone
  | RetNone4
  | RetZ "real list list"
  | RetFull "real list list" "real list list" "real list list" "nat list list"

text \<open>\<open>out\<close>: \<open>(None, None, None, None)\<close> if \<open>full_output\<close>, else \<open>None\<close>.\<close>

definition out :: "args \<Rightarrow> ret" where
  "out a = (if full_output a then RetNone4 else RetNone)"

text \<open>Lines 1051-1061; the realizations are kept flat.\<close>

definition finish :: "args \<Rightarrow> realization list \<Rightarrow> 'r world \<Rightarrow> ret \<times> 'r world" where
  "finish a rs w =
     (let w' = say (verbose a > 1 \<and> int (length rs) < nreal a) WarnMissing w
      in if full_output a
         then (RetFull (map Z_real rs) (map T1_real rs) (map T2_real rs) (map n_cond_ok_real rs), w')
         else (RetZ (map Z_real rs), w'))"

text \<open>The call: the store after it, and the exception raised or the value returned with
  the state of the random generator and the messages.\<close>

definition pluriGaussianSim ::
  "'r env \<Rightarrow> args \<Rightarrow> store \<Rightarrow> 'r world \<Rightarrow> store \<times> (exn + ret \<times> 'r world)" where
  "pluriGaussianSim env a st w =
     (case prepare a w of
        Inl e \<Rightarrow> (st, Inl e)
      | Inr (ReturnOut, w') \<Rightarrow> (st, Inr (out a, w'))
      | Inr (pr, w') \<Rightarrow>
          (case set_params a st of
             (st', Some e) \<Rightarrow> (st', Inl e)
           | (st', None) \<Rightarrow>
               (st',
                case real_loop env a (case pr of Conditional c \<Rightarrow> Some c | _ \<Rightarrow> None) st' 0 [] w' of
                  Inl e \<Rightarrow> Inl e
                | Inr (rs, w'') \<Rightarrow> Inr (finish a rs w''))))"

text \<open>A call with the defaults \<open>params_T1={}\<close>, \<open>params_T2={}\<close>: the two dictionaries are
  created once, when the function is defined, at the references \<open>default_T1\<close> and
  \<open>default_T2\<close> of the store, and every call that omits the argument uses them.\<close>

definition default_T1 :: nat where "default_T1 = 0"

definition default_T2 :: nat where "default_T2 = 1"

definition pluriGaussianSim_defaults ::
  "'r env \<Rightarrow> args \<Rightarrow> store \<Rightarrow> 'r world \<Rightarrow> store \<times> (exn + ret \<times> 'r world)" where
  "pluriGaussianSim_defaults env a st w =
     pluriGaussianSim env (a\<lparr>params_T1 := default_T1, params_T2 := default_T2\<rparr>) st w"

subsection \<open>Predicates used in the statements\<close>

text \<open>Point \<open>k\<close> is honoured: the truncation rule maps its latent values to the required
  value.\<close>

definition honoured :: "(real \<Rightarrow> real \<Rightarrow> real) \<Rightarrow> real list \<Rightarrow> (real \<times> real) list \<Rightarrow> nat \<Rightarrow> bool" where
  "honoured fv v v_T k = (fv (fst (v_T ! k)) (snd (v_T ! k)) = v ! k)"

text \<open>Every point honoured in \<open>v_T\<close> is honoured in \<open>v_T'\<close>.\<close>

definition keeps ::
  "(real \<Rightarrow> real \<Rightarrow> real) \<Rightarrow> real list \<Rightarrow> (real \<times> real) list \<Rightarrow> (real \<times> real) list \<Rightarrow> bool" where
  "keeps fv v v_T v_T' =
     (length v_T' = length v_T \<and>
      (\<forall>k<length v_T. honoured fv v v_T k \<longrightarrow> honoured fv v v_T' k))"

text \<open>The invariant of the Metropolis-Hastings loop: from index \<open>mh_iter_min\<close> on, the
  list \<open>nhd_ok\<close> is non-decreasing and bounded by the number of points honoured now.\<close>

definition nhd_inv :: "args \<Rightarrow> cdata \<Rightarrow> nat list \<Rightarrow> (real \<times> real) list \<Rightarrow> bool" where
  "nhd_inv a c nhd v_T =
     ((\<forall>i j. mh_iter_min a \<le> int i \<and> i \<le> j \<and> j < length nhd \<longrightarrow> nhd ! i \<le> nhd ! j) \<and>
      (\<forall>i. mh_iter_min a \<le> int i \<and> i < length nhd \<longrightarrow>
           nhd ! i \<le> np_sum (hd_ok_of (flag_value a) v_T (v_c c))))"


text \<open>\<open>xs[indc == y]\<close>: the entries of \<open>xs\<close> at the positions where \<open>indc\<close> is \<open>y\<close>; and
  the first such entry for every distinct value of \<open>indc\<close>, in increasing order of the
  values.\<close>

definition in_cell :: "'a list \<Rightarrow> int list \<Rightarrow> int \<Rightarrow> 'a list" where
  "in_cell xs indc y = map fst (filter (\<lambda>p. snd p = y) (zip xs indc))"

definition firsts_of :: "'a list \<Rightarrow> int list \<Rightarrow> 'a list" where
  "firsts_of xs indc = map (\<lambda>y. hd (in_cell xs indc y)) (sort (remdups indc))"


text \<open>Points that fall in the same cell carry the same value.\<close>

definition consistent :: "int list \<Rightarrow> real list \<Rightarrow> bool" where
  "consistent indc v =
     (\<forall>i<length indc. \<forall>j<length indc. indc ! i = indc ! j \<longrightarrow> v ! i = v ! j)"

text \<open>The reads \<open>mean[x_mean_T_grid_ind[k]]\<close> of a field are within the mean array for the
  first \<open>n\<close> conditioning points; and this for both fields and all points.\<close>

definition mean_ok :: "cfield \<Rightarrow> nat \<Rightarrow> bool" where
  "mean_ok f n = (\<forall>k<n. \<exists>m. np_get (mean_T f) (x_mean_T_grid_ind f ! k) = Inr m)"

definition means_ok :: "cdata \<Rightarrow> bool" where
  "means_ok c = (mean_ok (fld_T1 c) (npt c) \<and> mean_ok (fld_T2 c) (npt c))"

text \<open>For a field without covariance model, \<open>params['mean']\<close> can be read and reshaped to
  the grid.\<close>

definition gen_ok :: "args \<Rightarrow> store \<Rightarrow> bool" where
  "gen_ok a st =
     (\<forall>t. cov_model a t = None \<longrightarrow> (\<exists>m. mean_field a (st (params a t)) = Inr m))"

text \<open>Some conditioning point requires a value that the truncation rule never takes.\<close>

definition infeasible :: "args \<Rightarrow> cdata \<Rightarrow> bool" where
  "infeasible a c = (\<exists>k<npt c. \<forall>t1 t2. flag_value a t1 t2 \<noteq> v_c c ! k)"


subsection \<open>A worked example\<close>

text \<open>
  A grid of two cells in one dimension, \<open>T1\<close> with a pure nugget covariance (variance 1),
  \<open>T2\<close> deterministic, and the truncation rule "1 if \<open>T1 > 0\<close> else 2". The state of the
  random generator is the list of the numbers it will produce: \<open>np.random.normal\<close> returns
  \<open>loc + scale * z\<close> for the next number \<open>z\<close>, \<open>np.random.random\<close> returns the next number,
  \<open>np.random.permutation\<close> returns the identity. The solver solves the systems with a zero
  right-hand side (all that a nugget covariance produces), and the field generator returns,
  in each of the two cells, the value of the conditioning point at the cell centre, or 0.
\<close>

definition flag_ex :: "real \<Rightarrow> real \<Rightarrow> real" where
  "flag_ex t1 t2 = (if t1 > 0 then 1 else 2)"

definition nugget_ex :: "real list \<Rightarrow> real" where
  "nugget_ex h = (if list_all (\<lambda>y. y = 0) h then 1 else 0)"

definition gen_ex :: "gen_call \<Rightarrow> real list" where
  "gen_ex g =
     (case (g_x g, g_v g) of
        (Some xs, Some vs) \<Rightarrow>
          map (\<lambda>centre. case find (\<lambda>p. fst p = [centre]) (zip xs vs) of
                           Some p \<Rightarrow> snd p
                         | None \<Rightarrow> 0) [1 / 2, 3 / 2]
      | _ \<Rightarrow> [0, 0])"

definition env_ex :: "real list env" where
  "env_ex =
     \<lparr>np_random_permutation = (\<lambda>n r. ([0..<n], r)),
      np_random_normal = (\<lambda>loc scale r. (case r of [] \<Rightarrow> (loc, []) | z # zs \<Rightarrow> (loc + scale * z, zs))),
      np_random_random = (\<lambda>r. (case r of [] \<Rightarrow> (0, []) | u # us \<Rightarrow> (u, us))),
      np_linalg_solve = (\<lambda>m b. if list_all (\<lambda>y. y = 0) b then Some (map (\<lambda>y. 0) b) else None),
      multiGaussianRun = (\<lambda>g r. (Some (gen_ex g), r))\<rparr>"

definition args_ex :: args where
  "args_ex =
     \<lparr>flag_value = flag_ex, d_arg = D1, dimension = Seq [2], spacing = Scalar 1,
      origin = Scalar 0, x_arg = Some [3 / 2, 1 / 2], v_arg = Some [1, 2],
      cov_model_T1 = Some nugget_ex, cov_model_T2 = None,
      mean_T1 = [0], mean_T2 = [0], var_T1 = None, var_T2 = None,
      algo_T1 = ''fft'', algo_T2 = ''deterministic'', params_T1 = 0, params_T2 = 1,
      accept_init = 1 / 4, accept_pow = 2, mh_iter_min = 0, mh_iter_max = 1,
      ntry_max = 1, retrieve_real_anyway = False, nreal = 1, full_output = True,
      verbose = 0\<rparr>"

text \<open>The conditioning data of the example: the two points in the order given, and in
  the order of their cells.\<close>

definition fld_T1_ex :: cfield where
  "fld_T1_ex = \<lparr>has_cov = True, mat_T = [[1, 0], [0, 1]], cov0_T = 1, mean_T = [0],
                x_mean_T_grid_ind = [0, 0]\<rparr>"

definition fld_T2_ex :: cfield where
  "fld_T2_ex = \<lparr>has_cov = False, mat_T = [], cov0_T = 0, mean_T = [0],
                x_mean_T_grid_ind = [0, 0]\<rparr>"

definition cdata_ex :: cdata where
  "cdata_ex = \<lparr>x_c = [[3 / 2], [1 / 2]], v_c = [1, 2], npt = 2,
               fld_T1 = fld_T1_ex, fld_T2 = fld_T2_ex\<rparr>"

definition cdata_ex2 :: cdata where
  "cdata_ex2 = \<lparr>x_c = [[1 / 2], [3 / 2]], v_c = [2, 1], npt = 2,
                fld_T1 = fld_T1_ex, fld_T2 = fld_T2_ex\<rparr>"


definition store_ex :: store where
  "store_ex = (\<lambda>p. Map.empty)"

definition world_ex :: "real list world" where
  "world_ex = \<lparr>rng = [1, - 1, 1, 1], printed = []\<rparr>"

section \<open>Properties\<close>

subsection \<open>Grid-cell index\<close>










subsection \<open>Acceptance probability\<close>









subsection \<open>Metropolis-Hastings loop\<close>


lemma np_sum_mono:
  assumes "length as = length bs" "\<forall>i<length as. as ! i \<longrightarrow> bs ! i"
  shows "np_sum as \<le> np_sum bs"
  using assms
proof (induction as bs rule: list_induct2)
  case Nil
  then show ?case by (simp add: np_sum_def)
next
  case (Cons x xs y ys)
  have "\<forall>i<length xs. xs ! i \<longrightarrow> ys ! i"
    using Cons.prems by (metis Suc_less_eq length_Cons nth_Cons_Suc)
  then have "np_sum xs \<le> np_sum ys" using Cons.IH by simp
  moreover have "x \<longrightarrow> y" using Cons.prems by (metis length_greater_0_conv list.discI nth_Cons_0)
  ultimately show ?case by (auto simp: np_sum_def)
qed

lemma keeps_refl: "keeps fv v v_T v_T"
  by (simp add: keeps_def)

lemma keeps_trans: "keeps fv v a b \<Longrightarrow> keeps fv v b c \<Longrightarrow> keeps fv v a c"
  by (simp add: keeps_def)

lemma hd_ok_of_nth:
  "k < length v_T \<Longrightarrow> k < length v \<Longrightarrow> hd_ok_of fv v_T v ! k = honoured fv v v_T k"
  by (simp add: hd_ok_of_def honoured_def)

lemma length_hd_ok_of: "length (hd_ok_of fv v_T v) = min (length v_T) (length v)"
  by (simp add: hd_ok_of_def)

lemma keeps_np_sum:
  assumes "keeps fv v v_T v_T'"
  shows "np_sum (hd_ok_of fv v_T v) \<le> np_sum (hd_ok_of fv v_T' v)"
proof (rule np_sum_mono)
  show "length (hd_ok_of fv v_T v) = length (hd_ok_of fv v_T' v)"
    using assms by (simp add: length_hd_ok_of keeps_def)
  show "\<forall>i<length (hd_ok_of fv v_T v). hd_ok_of fv v_T v ! i \<longrightarrow> hd_ok_of fv v_T' v ! i"
    using assms by (simp add: length_hd_ok_of keeps_def hd_ok_of_nth)
qed

lemma accept_candidate_keeps:
  assumes "mh_iter_min a \<le> nit"
  shows "keeps (flag_value a) (v_c c) v_T (fst (accept_candidate env a c nit k cand v_T w))"
  using assms
  by (cases "k < length v_T")
     (auto simp: accept_candidate_def keeps_def honoured_def nth_list_update Let_def)

lemma mh_sweep_keeps:
  assumes "mh_iter_min a \<le> nit" "mh_sweep env a c nit hd_ok ks v_T w = Fine v_T' w'"
  shows "keeps (flag_value a) (v_c c) v_T v_T'"
  using assms(2)
proof (induction ks arbitrary: v_T w)
  case Nil
  then show ?case by (simp add: keeps_refl)
next
  case (Cons k ks)
  show ?case
  proof (cases "hd_ok ! k")
    case True
    then show ?thesis using Cons assms(1) by simp
  next
    case False
    then obtain y1 w1 y2 w2 where
      c1: "candidate_T env a c T1 v_T k w = Fine y1 w1" and
      c2: "candidate_T env a c T2 v_T k w1 = Fine y2 w2" and
      rest: "mh_sweep env a c nit hd_ok ks (fst (accept_candidate env a c nit k (y1, y2) v_T w2))
               (snd (accept_candidate env a c nit k (y1, y2) v_T w2)) = Fine v_T' w'"
      using Cons.prems by (auto simp: Let_def split: step.splits)
    have "keeps (flag_value a) (v_c c) (fst (accept_candidate env a c nit k (y1, y2) v_T w2)) v_T'"
      using Cons.IH[OF rest] .
    then show ?thesis
      using accept_candidate_keeps[OF assms(1)] keeps_trans by blast
  qed
qed

lemma mh_sweep_length:
  assumes "mh_sweep env a c nit hd_ok ks v_T w = Fine v_T' w'"
  shows "length v_T' = length v_T"
  using assms
proof (induction ks arbitrary: v_T w)
  case Nil
  then show ?case by simp
next
  case (Cons k ks)
  show ?case
  proof (cases "mh_iter_min a \<le> nit \<and> hd_ok ! k")
    case True
    then show ?thesis using Cons by simp
  next
    case False
    then obtain y1 w1 y2 w2 where
      rest: "mh_sweep env a c nit hd_ok ks (fst (accept_candidate env a c nit k (y1, y2) v_T w2))
               (snd (accept_candidate env a c nit k (y1, y2) v_T w2)) = Fine v_T' w'"
      using Cons.prems by (auto simp: Let_def split: step.splits)
    have "length (fst (accept_candidate env a c nit k (y1, y2) v_T w2)) = length v_T"
      by (simp add: accept_candidate_def Let_def)
    then show ?thesis using Cons.IH[OF rest] by simp
  qed
qed

lemma mh_sweep_untouched:
  assumes "mh_iter_min a \<le> nit" "mh_sweep env a c nit hd_ok ks v_T w = Fine v_T' w'"
    and "hd_ok ! k"
  shows "v_T' ! k = v_T ! k"
  using assms(2)
proof (induction ks arbitrary: v_T w)
  case Nil
  then show ?case by simp
next
  case (Cons j ks)
  show ?case
  proof (cases "hd_ok ! j")
    case True
    then show ?thesis using Cons assms(1) by simp
  next
    case False
    then obtain y1 w1 y2 w2 where
      rest: "mh_sweep env a c nit hd_ok ks (fst (accept_candidate env a c nit j (y1, y2) v_T w2))
               (snd (accept_candidate env a c nit j (y1, y2) v_T w2)) = Fine v_T' w'"
      using Cons.prems by (auto simp: Let_def split: step.splits)
    have "j \<noteq> k" using False assms(3) by auto
    then have "fst (accept_candidate env a c nit j (y1, y2) v_T w2) ! k = v_T ! k"
      by (simp add: accept_candidate_def Let_def)
    then show ?thesis using Cons.IH[OF rest] by simp
  qed
qed


lemma nhd_inv_step:
  assumes inv: "nhd_inv a c nhd v_T" and len: "int (length nhd) = nit"
    and k: "mh_iter_min a \<le> nit \<longrightarrow> keeps (flag_value a) (v_c c) v_T v_T'"
  shows "nhd_inv a c (nhd @ [np_sum (hd_ok_of (flag_value a) v_T (v_c c))]) v_T'"
proof -
  let ?n = "np_sum (hd_ok_of (flag_value a) v_T (v_c c))"
  let ?n' = "np_sum (hd_ok_of (flag_value a) v_T' (v_c c))"
  have mono: "?n \<le> ?n'" if "mh_iter_min a \<le> nit"
    using k that keeps_np_sum by blast
  have s: "(nhd @ [?n]) ! i \<le> (nhd @ [?n]) ! j"
    if "mh_iter_min a \<le> int i" "i \<le> j" "j < length (nhd @ [?n])" for i j
  proof (cases "j < length nhd")
    case True
    then show ?thesis using inv that by (simp add: nhd_inv_def nth_append)
  next
    case False
    then have j: "j = length nhd" using that by simp
    show ?thesis
    proof (cases "i < length nhd")
      case True
      then show ?thesis using inv that j by (simp add: nhd_inv_def nth_append)
    next
      case False
      then show ?thesis using that j by (simp add: nth_append)
    qed
  qed
  have t: "(nhd @ [?n]) ! i \<le> ?n'"
    if "mh_iter_min a \<le> int i" "i < length (nhd @ [?n])" for i
  proof -
    have "mh_iter_min a \<le> nit" using that len by simp
    then have m: "?n \<le> ?n'" by (rule mono)
    show ?thesis
    proof (cases "i < length nhd")
      case True
      then have "nhd ! i \<le> ?n" using inv that by (simp add: nhd_inv_def)
      then show ?thesis using True m by (simp add: nth_append)
    next
      case False
      then show ?thesis using that m by (simp add: nth_append)
    qed
  qed
  show ?thesis unfolding nhd_inv_def using s t by blast
qed

lemma mh_loop_inv:
  assumes "mh_loop env a c ireal nit nhd v_T w = Fine r w'"
    and "int (length nhd) = nit" and "nhd_inv a c nhd v_T"
  shows "nhd_inv a c (nhd_ok r) (v_T_end r)"
  using assms
proof (induction env a c ireal nit nhd v_T w arbitrary: r w' rule: mh_loop.induct)
  case (1 env a c ireal nit nhd v_T w)
  let ?hd = "hd_ok_of (flag_value a) v_T (v_c c)"
  let ?nhd = "nhd @ [np_sum ?hd]"
  show ?case
  proof (cases "nit < mh_iter_max a")
    case False
    then show ?thesis using "1.prems" by (auto simp: mh_loop.simps[of env a c ireal nit])
  next
    case run: True
    show ?thesis
    proof (cases "mh_iter_min a \<le> nit \<and> last ?nhd = npt c")
      case True
      then have "r = \<lparr>stop_mh = True, nhd_ok = ?nhd, v_T_end = v_T\<rparr>"
        using "1.prems"(1) run by (auto simp: mh_loop.simps[of env a c ireal nit] Let_def)
      then show ?thesis
        using nhd_inv_step[OF "1.prems"(3) "1.prems"(2), of v_T] by (simp add: keeps_refl)
    next
      case False
      let ?w1 = "say (verbose a > 4)
                   (InfoMHIter (ireal + 1) (nreal a) (nit + 1) (mh_iter_min a) (mh_iter_max a)) w"
      let ?pr = "np_random_permutation env (npt c) (rng ?w1)"
      obtain v_T' w2 where
        sw: "mh_sweep env a c nit ?hd (fst ?pr) v_T (?w1\<lparr>rng := snd ?pr\<rparr>) = Fine v_T' w2" and
        rec: "mh_loop env a c ireal (nit + 1) ?nhd v_T' w2 = Fine r w'"
        using "1.prems"(1) run False
        by (auto simp: mh_loop.simps[of env a c ireal nit] Let_def split: step.splits if_splits)
      have k: "mh_iter_min a \<le> nit \<longrightarrow> keeps (flag_value a) (v_c c) v_T v_T'"
        using mh_sweep_keeps[OF _ sw] by simp
      have inv': "nhd_inv a c ?nhd v_T'"
        using nhd_inv_step[OF "1.prems"(3) "1.prems"(2) k] .
      have len': "int (length ?nhd) = nit + 1" using "1.prems"(2) by simp
      show ?thesis
        using "1.IH"[OF run refl refl False refl refl sw rec len' inv'] .
    qed
  qed
qed



lemma mh_loop_stop_aux:
  assumes "mh_loop env a c ireal nit nhd v_T w = Fine r w'"
    and "int (length nhd) = nit"
    and "\<forall>n<length nhd. mh_iter_min a \<le> int n \<longrightarrow> nhd ! n \<noteq> npt c"
  shows "int (length (nhd_ok r)) \<le> max nit (mh_iter_max a) \<and>
         (stop_mh r \<longleftrightarrow> (\<exists>n<length (nhd_ok r). mh_iter_min a \<le> int n \<and> nhd_ok r ! n = npt c)) \<and>
         (stop_mh r \<longrightarrow> nhd_ok r \<noteq> [] \<and> mh_iter_min a \<le> int (length (nhd_ok r)) - 1 \<and>
              last (nhd_ok r) = npt c \<and>
              np_sum (hd_ok_of (flag_value a) (v_T_end r) (v_c c)) = npt c) \<and>
         (\<not> stop_mh r \<longrightarrow> int (length (nhd_ok r)) = max nit (mh_iter_max a))"
  using assms
proof (induction env a c ireal nit nhd v_T w arbitrary: r w' rule: mh_loop.induct)
  case (1 env a c ireal nit nhd v_T w)
  let ?hd = "hd_ok_of (flag_value a) v_T (v_c c)"
  let ?nhd = "nhd @ [np_sum ?hd]"
  show ?case
  proof (cases "nit < mh_iter_max a")
    case False
    then have "r = \<lparr>stop_mh = False, nhd_ok = nhd, v_T_end = v_T\<rparr>"
      using "1.prems"(1) by (auto simp: mh_loop.simps[of env a c ireal nit])
    then show ?thesis using "1.prems"(2,3) False by auto
  next
    case run: True
    show ?thesis
    proof (cases "mh_iter_min a \<le> nit \<and> last ?nhd = npt c")
      case True
      then have r: "r = \<lparr>stop_mh = True, nhd_ok = ?nhd, v_T_end = v_T\<rparr>"
        using "1.prems"(1) run by (auto simp: mh_loop.simps[of env a c ireal nit] Let_def)
      have "\<exists>n<length ?nhd. mh_iter_min a \<le> int n \<and> ?nhd ! n = npt c"
        using True "1.prems"(2) by (intro exI[of _ "length nhd"]) auto
      then show ?thesis using r True "1.prems"(2) run by auto
    next
      case False
      let ?w1 = "say (verbose a > 4)
                   (InfoMHIter (ireal + 1) (nreal a) (nit + 1) (mh_iter_min a) (mh_iter_max a)) w"
      let ?pr = "np_random_permutation env (npt c) (rng ?w1)"
      obtain v_T' w2 where
        sw: "mh_sweep env a c nit ?hd (fst ?pr) v_T (?w1\<lparr>rng := snd ?pr\<rparr>) = Fine v_T' w2" and
        rec: "mh_loop env a c ireal (nit + 1) ?nhd v_T' w2 = Fine r w'"
        using "1.prems"(1) run False
        by (auto simp: mh_loop.simps[of env a c ireal nit] Let_def split: step.splits if_splits)
      have len': "int (length ?nhd) = nit + 1" using "1.prems"(2) by simp
      have no: "\<forall>n<length ?nhd. mh_iter_min a \<le> int n \<longrightarrow> ?nhd ! n \<noteq> npt c"
      proof (intro allI impI)
        fix n assume n: "n < length ?nhd" "mh_iter_min a \<le> int n"
        show "?nhd ! n \<noteq> npt c"
        proof (cases "n < length nhd")
          case True
          then show ?thesis using "1.prems"(3) n by (simp add: nth_append)
        next
          case False
          then have "n = length nhd" using n by simp
          then show ?thesis using False n "1.prems"(2) \<open>\<not> (mh_iter_min a \<le> nit \<and> last ?nhd = npt c)\<close>
            by (auto simp: nth_append)
        qed
      qed
      have "max (nit + 1) (mh_iter_max a) = max nit (mh_iter_max a)" using run by simp
      then show ?thesis
        using "1.IH"[OF run refl refl False refl refl sw rec len' no] by simp
    qed
  qed
qed

lemma np_sum_le_length: "np_sum bs \<le> length bs"
  by (simp add: np_sum_def)

lemma np_sum_all:
  "np_sum bs = length bs \<longleftrightarrow> (\<forall>i<length bs. bs ! i)"
proof (induction bs)
  case Nil
  then show ?case by (simp add: np_sum_def)
next
  case (Cons b bs)
  have le: "np_sum bs \<le> length bs" by (rule np_sum_le_length)
  have "np_sum (b # bs) = (if b then Suc (np_sum bs) else np_sum bs)"
    by (simp add: np_sum_def)
  moreover have "(\<forall>i<length (b # bs). (b # bs) ! i) \<longleftrightarrow> b \<and> (\<forall>i<length bs. bs ! i)"
    by (auto simp: nth_Cons split: nat.splits)
  ultimately show ?case using Cons.IH le by auto
qed

lemma np_sum_all_honoured:
  assumes "length v_T = n" "length v = n"
  shows "np_sum (hd_ok_of fv v_T v) = n \<longleftrightarrow> (\<forall>k<n. fv (fst (v_T ! k)) (snd (v_T ! k)) = v ! k)"
proof -
  have l: "length (hd_ok_of fv v_T v) = n" using assms by (simp add: length_hd_ok_of)
  show ?thesis
    using np_sum_all[of "hd_ok_of fv v_T v"] assms l
    by (simp add: hd_ok_of_nth honoured_def)
qed




lemma accept_candidate_length:
  "length (fst (accept_candidate env a c nit k cand v_T w)) = length v_T"
  by (simp add: accept_candidate_def Let_def)

lemma mh_sweep_changes:
  assumes "mh_iter_min a \<le> nit" "mh_sweep env a c nit hd_ok ks v_T w = Fine v_T' w'"
    and "k < length v_T"
  shows "v_T' ! k = v_T ! k \<or> honoured (flag_value a) (v_c c) v_T' k"
  using assms(2,3)
proof (induction ks arbitrary: v_T w)
  case Nil
  then show ?case by simp
next
  case (Cons j ks)
  show ?case
  proof (cases "hd_ok ! j")
    case True
    then show ?thesis using Cons assms(1) by simp
  next
    case False
    then obtain y1 w1 y2 w2 where
      rest: "mh_sweep env a c nit hd_ok ks (fst (accept_candidate env a c nit j (y1, y2) v_T w2))
               (snd (accept_candidate env a c nit j (y1, y2) v_T w2)) = Fine v_T' w'"
      using Cons.prems by (auto simp: Let_def split: step.splits)
    let ?s = "fst (accept_candidate env a c nit j (y1, y2) v_T w2)"
    have len: "k < length ?s" using Cons.prems(2) by (simp add: accept_candidate_length)
    have ih: "v_T' ! k = ?s ! k \<or> honoured (flag_value a) (v_c c) v_T' k"
      using Cons.IH[OF rest len] .
    have "?s ! k = v_T ! k \<or> flag_value a (fst (?s ! k)) (snd (?s ! k)) = v_c c ! k"
      using assms(1) Cons.prems(2)
      by (cases "j = k") (auto simp: accept_candidate_def Let_def)
    then show ?thesis using ih by (auto simp: honoured_def)
  qed
qed

lemma mh_loop_length:
  assumes "mh_loop env a c ireal nit nhd v_T w = Fine r w'"
  shows "length (v_T_end r) = length v_T"
  using assms
proof (induction env a c ireal nit nhd v_T w arbitrary: r w' rule: mh_loop.induct)
  case (1 env a c ireal nit nhd v_T w)
  let ?hd = "hd_ok_of (flag_value a) v_T (v_c c)"
  let ?nhd = "nhd @ [np_sum ?hd]"
  show ?case
  proof (cases "nit < mh_iter_max a")
    case False
    then show ?thesis using "1.prems" by (auto simp: mh_loop.simps[of env a c ireal nit])
  next
    case run: True
    show ?thesis
    proof (cases "mh_iter_min a \<le> nit \<and> last ?nhd = npt c")
      case True
      then show ?thesis
        using "1.prems"(1) run by (auto simp: mh_loop.simps[of env a c ireal nit] Let_def)
    next
      case False
      let ?w1 = "say (verbose a > 4)
                   (InfoMHIter (ireal + 1) (nreal a) (nit + 1) (mh_iter_min a) (mh_iter_max a)) w"
      let ?pr = "np_random_permutation env (npt c) (rng ?w1)"
      obtain v_T' w2 where
        sw: "mh_sweep env a c nit ?hd (fst ?pr) v_T (?w1\<lparr>rng := snd ?pr\<rparr>) = Fine v_T' w2" and
        rec: "mh_loop env a c ireal (nit + 1) ?nhd v_T' w2 = Fine r w'"
        using "1.prems"(1) run False
        by (auto simp: mh_loop.simps[of env a c ireal nit] Let_def split: step.splits if_splits)
      show ?thesis
        using "1.IH"[OF run refl refl False refl refl sw rec] mh_sweep_length[OF sw] by simp
    qed
  qed
qed

lemma seq_sim_length:
  assumes "seq_sim env f t vis ks v_T w = Fine v_T' w'"
  shows "length v_T' = length v_T"
  using assms
proof (induction ks arbitrary: vis v_T w)
  case Nil
  then show ?case by simp
next
  case (Cons k ks)
  show ?case
  proof (cases "has_cov f")
    case True
    then obtain y w1 where
      rest: "seq_sim env f t (vis @ [k]) ks (v_T[k := set_col t y (v_T ! k)]) w1 = Fine v_T' w'"
      using Cons.prems by (auto split: step.splits)
    show ?thesis using Cons.IH[OF rest] by simp
  next
    case False
    then obtain m where
      rest: "seq_sim env f t (vis @ [k]) ks (v_T[k := set_col t m (v_T ! k)]) w = Fine v_T' w'"
      using Cons.prems by (auto split: sum.splits)
    show ?thesis using Cons.IH[OF rest] by simp
  qed
qed

lemma init_T_length:
  assumes "init_T env a c t v_T w = Fine v_T' w'"
  shows "length v_T' = length v_T"
  using assms seq_sim_length
  by (fastforce simp: init_T_def Let_def split: step.splits)

lemma conditioning_result:
  assumes "conditioning env a c ireal w = Fine (nhd, v_T) w'"
  shows "length v_T = npt c \<and> nhd \<noteq> [] \<and>
         last nhd = np_sum (hd_ok_of (flag_value a) v_T (v_c c)) \<and>
         (\<forall>i j. mh_iter_min a \<le> int i \<and> i \<le> j \<and> j < length nhd \<longrightarrow> nhd ! i \<le> nhd ! j)"
proof -
  obtain v1 w1 v2 w2 r where
    i1: "init_T env a c T1 (replicate (npt c) (0, 0)) w = Fine v1 w1" and
    i2: "init_T env a c T2 v1 w1 = Fine v2 w2" and
    lp: "mh_loop env a c ireal 0 [] v2 w2 = Fine r w'" and
    res: "(nhd, v_T) = (if \<not> stop_mh r
             then (nhd_ok r @ [np_sum (hd_ok_of (flag_value a) (v_T_end r) (v_c c))], v_T_end r)
             else (nhd_ok r, v_T_end r))"
    using assms by (auto simp: conditioning_def split: step.splits if_splits)
  have len: "length (v_T_end r) = npt c"
    using mh_loop_length[OF lp] init_T_length[OF i2] init_T_length[OF i1] by simp
  have inv: "nhd_inv a c (nhd_ok r) (v_T_end r)"
    using mh_loop_inv[OF lp] by (simp add: nhd_inv_def)
  have st: "stop_mh r \<longrightarrow> nhd_ok r \<noteq> [] \<and> last (nhd_ok r) = npt c \<and>
              np_sum (hd_ok_of (flag_value a) (v_T_end r) (v_c c)) = npt c"
    using mh_loop_stop_aux[OF lp] by simp
  show ?thesis
  proof (cases "stop_mh r")
    case True
    then show ?thesis using res len inv st by (simp add: nhd_inv_def)
  next
    case False
    have "nhd_inv a c (nhd_ok r @ [np_sum (hd_ok_of (flag_value a) (v_T_end r) (v_c c))]) (v_T_end r)"
      using nhd_inv_step[OF inv refl, of "v_T_end r"] by (simp add: keeps_refl)
    then show ?thesis using False res len by (simp add: nhd_inv_def)
  qed
qed



lemmas ex_defs = args_ex_def cdata_ex_def cdata_ex2_def fld_T1_ex_def fld_T2_ex_def env_ex_def
  world_ex_def flag_ex_def

lemmas run_defs = conditioning_def init_T_def krige_draw_def candidate_T_def accept_candidate_def
  hd_ok_of_def np_sum_def np_get_def dot_def say_def Let_def upt_rec numeral_2_eq_2

text \<open>
  C1. In a conditional try in which no kriging system fails, the recorded list \<open>nhd_ok\<close> of
  honoured counts is non-decreasing from index \<open>mh_iter_min\<close> on (the count appended after
  an exhausted loop included): for \<open>mh_iter_min \<le> i \<le> j\<close> the count at \<open>j\<close> is at least
  the count at \<open>i\<close>. The reason is the second part: in a sweep of an iteration
  \<open>nit \<ge> mh_iter_min\<close>, a point honoured at the beginning of the iteration keeps its
  latent values, and a point whose latent values change is honoured afterwards (a
  candidate with the wrong image is never accepted).
\<close>

theorem nhd_ok_nondecreasing:
  "(conditioning env a c ireal w = Fine (nhd, v_T) w' \<and>
      mh_iter_min a \<le> int i \<and> i \<le> j \<and> j < length nhd \<longrightarrow> nhd ! i \<le> nhd ! j) \<and>
   (mh_iter_min a \<le> nit \<and> mh_sweep env a c nit hd_ok ks u w1 = Fine u' w1' \<longrightarrow>
      (\<forall>k. hd_ok ! k \<longrightarrow> u' ! k = u ! k) \<and>
      (\<forall>k<length u. u' ! k = u ! k \<or> flag_value a (fst (u' ! k)) (snd (u' ! k)) = v_c c ! k))"
proof (intro conjI impI allI)
  assume h: "conditioning env a c ireal w = Fine (nhd, v_T) w' \<and>
      mh_iter_min a \<le> int i \<and> i \<le> j \<and> j < length nhd"
  then show "nhd ! i \<le> nhd ! j"
    using conditioning_result[of env a c ireal w nhd v_T w'] by blast
next
  fix k
  assume h: "mh_iter_min a \<le> nit \<and> mh_sweep env a c nit hd_ok ks u w1 = Fine u' w1'"
    and k: "hd_ok ! k"
  show "u' ! k = u ! k"
    using mh_sweep_untouched[of a nit env c hd_ok ks u w1 u' w1' k] h k by blast
next
  fix k
  assume h: "mh_iter_min a \<le> nit \<and> mh_sweep env a c nit hd_ok ks u w1 = Fine u' w1'"
    and k: "k < length u"
  show "u' ! k = u ! k \<or> flag_value a (fst (u' ! k)) (snd (u' ! k)) = v_c c ! k"
    using mh_sweep_changes[of a nit env c hd_ok ks u w1 u' w1' k] h k
    by (auto simp: honoured_def)
qed

theorem nhd_ok_nondecreasing_witness:
  "conditioning env_ex args_ex cdata_ex2 0 world_ex =
     Fine ([0, 1], [(1, 0), (1, 0)]) \<lparr>rng = [], printed = []\<rparr> \<and>
   mh_iter_min args_ex \<le> int 0 \<and> [0, 1 :: nat] ! 0 \<le> [0, 1] ! 1 \<and>
   mh_sweep env_ex args_ex cdata_ex2 0 [False, False] [0, 1] [(1, 0), (- 1, 0)]
     \<lparr>rng = [1, 1], printed = []\<rparr> = Fine [(1, 0), (1, 0)] \<lparr>rng = [], printed = []\<rparr> \<and>
   flag_value args_ex 1 0 = v_c cdata_ex2 ! 1"
proof -
  have c: "conditioning env_ex args_ex cdata_ex2 0 world_ex =
            Fine ([0, 1], [(1, 0), (1, 0)]) \<lparr>rng = [], printed = []\<rparr>"
    by (simp add: ex_defs run_defs mh_loop.simps)
  have m: "mh_iter_min args_ex \<le> int 0" by (simp add: args_ex_def)
  have s: "mh_sweep env_ex args_ex cdata_ex2 0 [False, False] [0, 1] [(1, 0), (- 1, 0)]
     \<lparr>rng = [1, 1], printed = []\<rparr> = Fine [(1, 0), (1, 0)] \<lparr>rng = [], printed = []\<rparr>"
    by (simp add: ex_defs run_defs)
  have t: "[0, 1 :: nat] ! 0 \<le> [0, 1] ! 1"
    using nhd_ok_nondecreasing[of env_ex args_ex cdata_ex2 0 world_ex "[0, 1]" "[(1, 0), (1, 0)]"
        "\<lparr>rng = [], printed = []\<rparr>" 0 1 0 "[False, False]" "[0, 1]" "[(1, 0), (- 1, 0)]"
        "\<lparr>rng = [1, 1], printed = []\<rparr>" "[(1, 0), (1, 0)]" "\<lparr>rng = [], printed = []\<rparr>"]
      c m
    by simp
  have f: "flag_value args_ex 1 0 = v_c cdata_ex2 ! 1"
    by (simp add: ex_defs)
  show ?thesis
    using c m t s f by blast
qed

text \<open>
  C2. The Metropolis-Hastings loop of a try, when no kriging system fails, starts at most
  \<open>mh_iter_max\<close> iterations (\<open>nhd_ok\<close> has one entry per iteration started). It ends with
  \<open>stop_mh = True\<close> if and only if at some iteration \<open>n\<close> that it reached, with
  \<open>mh_iter_min \<le> n\<close>, all \<open>npt\<close> points were honoured; it then stops at that iteration,
  which is not below \<open>mh_iter_min\<close>, and every point is honoured by the final values.
  Otherwise all the \<open>mh_iter_max\<close> iterations are run.
\<close>

theorem mh_loop_stop:
  assumes "mh_loop env a c ireal 0 [] v_T w = Fine r w'"
    and "length v_T = npt c" and "length (v_c c) = npt c"
  shows "int (length (nhd_ok r)) \<le> max 0 (mh_iter_max a) \<and>
         (stop_mh r \<longleftrightarrow>
            (\<exists>n<length (nhd_ok r). mh_iter_min a \<le> int n \<and> nhd_ok r ! n = npt c)) \<and>
         (stop_mh r \<longrightarrow>
            mh_iter_min a \<le> int (length (nhd_ok r)) - 1 \<and>
            (\<forall>k<npt c. flag_value a (fst (v_T_end r ! k)) (snd (v_T_end r ! k)) = v_c c ! k)) \<and>
         (\<not> stop_mh r \<longrightarrow> int (length (nhd_ok r)) = max 0 (mh_iter_max a))"
proof -
  have aux: "int (length (nhd_ok r)) \<le> max 0 (mh_iter_max a) \<and>
         (stop_mh r \<longleftrightarrow> (\<exists>n<length (nhd_ok r). mh_iter_min a \<le> int n \<and> nhd_ok r ! n = npt c)) \<and>
         (stop_mh r \<longrightarrow> nhd_ok r \<noteq> [] \<and> mh_iter_min a \<le> int (length (nhd_ok r)) - 1 \<and>
              last (nhd_ok r) = npt c \<and>
              np_sum (hd_ok_of (flag_value a) (v_T_end r) (v_c c)) = npt c) \<and>
         (\<not> stop_mh r \<longrightarrow> int (length (nhd_ok r)) = max 0 (mh_iter_max a))"
    using mh_loop_stop_aux[OF assms(1)] by simp
  have len: "length (v_T_end r) = npt c"
    using mh_loop_length[OF assms(1)] assms(2) by simp
  have "\<forall>k<npt c. flag_value a (fst (v_T_end r ! k)) (snd (v_T_end r ! k)) = v_c c ! k"
    if "stop_mh r"
    using aux that np_sum_all_honoured[OF len assms(3), of "flag_value a"] by blast
  then show ?thesis using aux by blast
qed

theorem mh_loop_stop_witness:
  "mh_loop env_ex (args_ex\<lparr>mh_iter_min := 1, mh_iter_max := 2\<rparr>) cdata_ex 0 0 []
      [(1, 0), (- 1, 0)] \<lparr>rng = [1, - 1], printed = []\<rparr> =
     Fine \<lparr>stop_mh = True, nhd_ok = [2, 2], v_T_end = [(1, 0), (- 1, 0)]\<rparr>
       \<lparr>rng = [], printed = []\<rparr> \<and>
   length [(1 :: real, 0 :: real), (- 1, 0)] = npt cdata_ex \<and>
   length (v_c cdata_ex) = npt cdata_ex \<and>
   mh_iter_min (args_ex\<lparr>mh_iter_min := 1, mh_iter_max := 2\<rparr>) \<le> int (length [2, 2 :: nat]) - 1"
proof -
  let ?a = "args_ex\<lparr>mh_iter_min := 1, mh_iter_max := 2\<rparr>"
  let ?r = "\<lparr>stop_mh = True, nhd_ok = [2, 2], v_T_end = [(1, 0), (- 1, 0)]\<rparr>"
  have l: "mh_loop env_ex ?a cdata_ex 0 0 [] [(1, 0), (- 1, 0)] \<lparr>rng = [1, - 1], printed = []\<rparr> =
     Fine ?r \<lparr>rng = [], printed = []\<rparr>"
    by (simp add: ex_defs run_defs mh_loop.simps)
  have n: "length [(1 :: real, 0 :: real), (- 1, 0)] = npt cdata_ex"
    "length (v_c cdata_ex) = npt cdata_ex"
    by (simp_all add: cdata_ex_def)
  show ?thesis
    using mh_loop_stop[OF l n] l n by simp
qed


subsection \<open>Deterministic latent field\<close>















lemma node_index_length:
  assumes "node_index d dims sp orig x = Inr indc"
  shows "length indc = length x"
  using assms by (auto simp: node_index_def split: sdim.splits sum.splits)


















subsection \<open>The worked example, evaluated\<close>

















subsection \<open>Deduplication of the conditioning points\<close>


lemma index_of_less: "y \<in> set u \<Longrightarrow> index_of u y < length u \<and> u ! index_of u y = y"
  by (induction u) auto

lemma index_of_nth: "distinct u \<Longrightarrow> j < length u \<Longrightarrow> index_of u (u ! j) = j"
proof (induction u arbitrary: j)
  case Nil
  then show ?case by simp
next
  case (Cons a u)
  show ?case
  proof (cases j)
    case 0
    then show ?thesis by simp
  next
    case (Suc m)
    then have "u ! m \<in> set u" using Cons.prems by simp
    then have "a \<noteq> u ! m" using Cons.prems by auto
    then show ?thesis using Suc Cons by simp
  qed
qed

lemma index_of_iff:
  assumes "distinct u" "y \<in> set u" "j < length u"
  shows "index_of u y = j \<longleftrightarrow> y = u ! j"
  using assms index_of_less index_of_nth by metis

lemma np_unique_props:
  "distinct (fst (np_unique indc))" "set (fst (np_unique indc)) = set indc"
  "sorted (fst (np_unique indc))" "fst (np_unique indc) = sort (remdups indc)"
  "snd (np_unique indc) = map (index_of (sort (remdups indc))) indc"
  by (simp_all add: np_unique_def Let_def)

lemma length_np_unique:
  "length (fst (np_unique indc)) = length indc \<longleftrightarrow> distinct indc"
  by (simp add: np_unique_def Let_def)

lemma mask_select_in_cell:
  assumes "distinct u" "set indc \<subseteq> set u" "j < length u"
  shows "mask_select xs (map (index_of u) indc) j = in_cell xs indc (u ! j)"
proof -
  have z: "zip xs (map (index_of u) indc) = map (\<lambda>p. (fst p, index_of u (snd p))) (zip xs indc)"
    by (simp add: zip_map2 case_prod_beta)
  have "filter (\<lambda>p. snd p = j) (map (\<lambda>p. (fst p, index_of u (snd p))) (zip xs indc))
          = map (\<lambda>p. (fst p, index_of u (snd p))) (filter (\<lambda>p. index_of u (snd p) = j) (zip xs indc))"
    by (simp add: filter_map comp_def)
  moreover have "filter (\<lambda>p. index_of u (snd p) = j) (zip xs indc)
          = filter (\<lambda>p. snd p = u ! j) (zip xs indc)"
  proof (rule filter_cong[OF refl])
    fix p assume "p \<in> set (zip xs indc)"
    then have "snd p \<in> set indc" by (metis in_set_zipE prod.collapse)
    then show "(index_of u (snd p) = j) = (snd p = u ! j)"
      using index_of_iff[OF assms(1) _ assms(3)] assms(2) by blast
  qed
  ultimately show ?thesis
    by (simp add: mask_select_def in_cell_def z comp_def)
qed

lemma set_in_cell:
  assumes "length xs = length indc"
  shows "set (in_cell xs indc y) = {xs ! k | k. k < length indc \<and> indc ! k = y}"
proof (intro set_eqI iffI)
  fix a assume "a \<in> set (in_cell xs indc y)"
  then obtain p where p: "p \<in> set (zip xs indc)" "snd p = y" "a = fst p"
    by (auto simp: in_cell_def)
  then obtain n where n: "xs ! n = fst p" "indc ! n = snd p" "n < length indc"
    by (auto simp: in_set_zip)
  have "a = xs ! n \<and> n < length indc \<and> indc ! n = y" using n p by simp
  then show "a \<in> {xs ! k | k. k < length indc \<and> indc ! k = y}" by blast
next
  fix a assume "a \<in> {xs ! k | k. k < length indc \<and> indc ! k = y}"
  then obtain k where k: "a = xs ! k" "k < length indc" "indc ! k = y" by auto
  then have "(a, y) \<in> set (zip xs indc)" using assms by (auto simp: in_set_zip)
  then have "(a, y) \<in> set (filter (\<lambda>p. snd p = y) (zip xs indc))" by simp
  then have "fst (a, y) \<in> set (in_cell xs indc y)"
    unfolding in_cell_def set_map by (rule imageI)
  then show "a \<in> set (in_cell xs indc y)" by simp
qed

lemma in_cell_nonempty:
  assumes "length xs = length indc" "y \<in> set indc"
  shows "in_cell xs indc y \<noteq> []"
proof -
  obtain k where "k < length indc" "indc ! k = y" using assms(2) by (auto simp: in_set_conv_nth)
  then have "xs ! k \<in> set (in_cell xs indc y)" using set_in_cell[OF assms(1)] by blast
  then show ?thesis by auto
qed

lemma firsts_map:
  assumes "\<forall>j\<in>set js. mask_select xs iv j \<noteq> []"
  shows "firsts xs iv js = Inr (map (\<lambda>j. hd (mask_select xs iv j)) js)"
  using assms
proof (induction js)
  case Nil
  then show ?case by simp
next
  case (Cons j js)
  then have "mask_select xs iv j \<noteq> []" by simp
  then have "np_get (mask_select xs iv j) 0 = Inr (hd (mask_select xs iv j))"
    by (cases "mask_select xs iv j") (simp_all add: np_get_def)
  then show ?case using Cons by simp
qed

lemma map_nth_fun: "map (\<lambda>j. f (u ! j)) [0..<length u] = map f u"
  by (rule nth_equalityI) auto

lemma firsts_unique:
  assumes "length xs = length indc"
  shows "firsts xs (snd (np_unique indc)) [0..<length (fst (np_unique indc))] = Inr (firsts_of xs indc)"
proof -
  let ?u = "sort (remdups indc)"
  have d: "distinct ?u" "set indc \<subseteq> set ?u" by simp_all
  have m: "mask_select xs (map (index_of ?u) indc) j = in_cell xs indc (?u ! j)" if "j < length ?u" for j
    using mask_select_in_cell[OF d that] .
  have ne: "\<forall>j\<in>set [0..<length ?u]. mask_select xs (map (index_of ?u) indc) j \<noteq> []"
  proof
    fix j assume "j \<in> set [0..<length ?u]"
    then have j: "j < length ?u" by simp
    then have "?u ! j \<in> set indc" by (metis nth_mem set_remdups set_sort)
    then show "mask_select xs (map (index_of ?u) indc) j \<noteq> []"
      using m[OF j] in_cell_nonempty[OF assms] by simp
  qed
  have "map (\<lambda>j. hd (mask_select xs (map (index_of ?u) indc) j)) [0..<length ?u]
          = map (\<lambda>j. hd (in_cell xs indc (?u ! j))) [0..<length ?u]"
    using m by simp
  also have "\<dots> = map (\<lambda>y. hd (in_cell xs indc y)) ?u"
    by (rule map_nth_fun)
  finally show ?thesis
    using firsts_map[OF ne] by (simp add: np_unique_props firsts_of_def)
qed




lemma two_values_remdups:
  assumes "a \<in> set l" "b \<in> set l" "a \<noteq> b"
  shows "length (remdups l) > 1"
proof -
  have "card {a, b} \<le> card (set l)" using assms by (intro card_mono) auto
  then have "2 \<le> card (set l)" using assms(3) by simp
  then show ?thesis by (simp add: length_remdups_card_conv)
qed

lemma one_value_remdups:
  assumes "\<forall>a\<in>set l. \<forall>b\<in>set l. a = b"
  shows "length (remdups l) \<le> 1"
proof (cases l)
  case Nil
  then show ?thesis by simp
next
  case (Cons a l')
  then have "set l = {a}" using assms by auto
  then show ?thesis by (simp add: length_remdups_card_conv)
qed

lemma list_ex_consistent:
  assumes "length v = length indc"
  shows "list_ex (\<lambda>j. length (remdups (mask_select v (snd (np_unique indc)) j)) > 1)
           [0..<length (fst (np_unique indc))] \<longleftrightarrow> \<not> consistent indc v"
proof -
  let ?u = "sort (remdups indc)"
  have d: "distinct ?u" "set indc \<subseteq> set ?u" by simp_all
  have m: "mask_select v (map (index_of ?u) indc) j = in_cell v indc (?u ! j)" if "j < length ?u" for j
    using mask_select_in_cell[OF d that] .
  show ?thesis
  proof
    assume "list_ex (\<lambda>j. length (remdups (mask_select v (snd (np_unique indc)) j)) > 1)
           [0..<length (fst (np_unique indc))]"
    then obtain j where j: "j < length ?u" "length (remdups (in_cell v indc (?u ! j))) > 1"
      using m by (auto simp: list_ex_iff np_unique_props)
    have "\<not> (\<forall>a\<in>set (in_cell v indc (?u ! j)). \<forall>b\<in>set (in_cell v indc (?u ! j)). a = b)"
      using one_value_remdups[of "in_cell v indc (?u ! j)"] j(2) by auto
    then obtain a b where ab: "a \<in> set (in_cell v indc (?u ! j))" "b \<in> set (in_cell v indc (?u ! j))"
      "a \<noteq> b" by blast
    then obtain k l where kl: "a = v ! k" "k < length indc" "indc ! k = ?u ! j"
      "b = v ! l" "l < length indc" "indc ! l = ?u ! j"
      using set_in_cell[OF assms, of "?u ! j"] by auto
    have "indc ! k = indc ! l \<and> v ! k \<noteq> v ! l" using kl ab(3) by simp
    then show "\<not> consistent indc v" using kl(2,5) unfolding consistent_def by blast
  next
    assume "\<not> consistent indc v"
    then obtain k l where kl: "k < length indc" "l < length indc" "indc ! k = indc ! l" "v ! k \<noteq> v ! l"
      by (auto simp: consistent_def)
    let ?j = "index_of ?u (indc ! k)"
    have "indc ! k \<in> set ?u" using kl(1) by simp
    then have j: "?j < length ?u" "?u ! ?j = indc ! k"
      using index_of_less[of "indc ! k" ?u] by simp_all
    have "k < length indc \<and> indc ! k = ?u ! ?j" "l < length indc \<and> indc ! l = ?u ! ?j"
      using kl j by simp_all
    then have a1: "v ! k \<in> set (in_cell v indc (?u ! ?j))"
      and a2: "v ! l \<in> set (in_cell v indc (?u ! ?j))"
      unfolding set_in_cell[OF assms] by blast+
    have "length (remdups (in_cell v indc (?u ! ?j))) > 1"
      by (rule two_values_remdups[OF a1 a2 kl(4)])
    then have "length (remdups (mask_select v (map (index_of ?u) indc) ?j)) > 1"
      using m[OF j(1)] by simp
    then show "list_ex (\<lambda>j. length (remdups (mask_select v (snd (np_unique indc)) j)) > 1)
           [0..<length (fst (np_unique indc))]"
      using j(1) by (auto simp: list_ex_iff np_unique_props)
  qed
qed

lemma cond_points_char:
  assumes "length indc = length x" "length v = length x"
  shows "cond_points a x v indc w =
     (if distinct indc then Inr (Some (x, v), w)
      else if consistent indc v
        then Inr (Some (firsts_of x indc, firsts_of v indc), say (verbose a > 1) WarnCondSame w)
        else Inr (None, say (verbose a > 0) ErrCondDiffer w))"
proof (cases "distinct indc")
  case True
  then have "length (fst (np_unique indc)) = length x"
    using length_np_unique[of indc] assms(1) by simp
  then show ?thesis using True by (simp add: cond_points_def Let_def)
next
  case False
  then have ne: "length (fst (np_unique indc)) \<noteq> length x"
    using length_np_unique[of indc] assms(1) by simp
  have lv: "length v = length indc" and lx: "length x = length indc" using assms by simp_all
  show ?thesis
  proof (cases "consistent indc v")
    case True
    then show ?thesis
      using False ne list_ex_consistent[OF lv] firsts_unique[OF lx] firsts_unique[OF lv]
      by (simp add: cond_points_def Let_def)
  next
    case c: False
    then show ?thesis
      using False ne list_ex_consistent[OF lv]
      by (simp add: cond_points_def Let_def)
  qed
qed

text \<open>
  C4. When two conditioning points (rows \<open>i\<close> and \<open>j\<close> of \<open>x\<close>) have the same flattened
  grid-cell index and different required values, the call returns \<open>out\<close>, that is
  \<open>(None, None, None, None)\<close> if \<open>full_output\<close> and \<open>None\<close> otherwise; no exception is
  raised; the parameter dictionaries and the state of the random generator are as before
  the call (no realization is attempted: nothing is drawn); the only effect is the error
  message, printed when \<open>verbose > 0\<close>.
\<close>

theorem inconsistent_data_returns_out:
  assumes "x_arg a = Some xf" "v_arg a = Some v"
    and "reshape_rows (nat_of_sdim (d_arg a)) xf = Inr x" "length v = length x"
    and "node_index (d_arg a) (dimension a) (spacing a) (origin a) x = Inr indc"
    and "i < length x" "j < length x" "indc ! i = indc ! j" "v ! i \<noteq> v ! j"
  shows "pluriGaussianSim env a st w = (st, Inr (out a, say (verbose a > 0) ErrCondDiffer w)) \<and>
         out a = (if full_output a then RetNone4 else RetNone) \<and>
         rng (say (verbose a > 0) ErrCondDiffer w) = rng w"
proof -
  have li: "length indc = length x" using node_index_length[OF assms(5)] .
  have nc: "\<not> consistent indc v"
    using assms(6-9) li by (auto simp: consistent_def)
  have nd: "\<not> distinct indc"
    using assms(6-9) li by (metis nth_eq_iff_index_eq)
  have cp: "cond_points a x v indc w = Inr (None, say (verbose a > 0) ErrCondDiffer w)"
    using cond_points_char[OF li assms(4)] nc nd by simp
  have "prepare a w = Inr (ReturnOut, say (verbose a > 0) ErrCondDiffer w)"
    using assms(1-5) cp by (simp add: prepare_def)
  then show ?thesis by (simp add: pluriGaussianSim_def out_def say_def)
qed



theorem inconsistent_data_returns_out_witness:
  "x_arg (args_ex\<lparr>x_arg := Some [3 / 2, 1 / 2, 3 / 2], v_arg := Some [1, 2, 2]\<rparr>)
     = Some [3 / 2, 1 / 2, 3 / 2] \<and>
   v_arg (args_ex\<lparr>x_arg := Some [3 / 2, 1 / 2, 3 / 2], v_arg := Some [1, 2, 2]\<rparr>)
     = Some [1, 2, 2] \<and>
   reshape_rows (nat_of_sdim D1) [3 / 2, 1 / 2, 3 / 2 :: real] = Inr [[3 / 2], [1 / 2], [3 / 2]] \<and>
   node_index D1 (Seq [2]) (Scalar 1) (Scalar 0) [[3 / 2], [1 / 2], [3 / 2]] = Inr [1, 0, 1] \<and>
   [1, 0, 1 :: int] ! 0 = [1, 0, 1] ! 2 \<and> [1, 2, 2 :: real] ! 0 \<noteq> [1, 2, 2] ! 2 \<and>
   pluriGaussianSim env_ex (args_ex\<lparr>x_arg := Some [3 / 2, 1 / 2, 3 / 2], v_arg := Some [1, 2, 2]\<rparr>)
     store_ex world_ex = (store_ex, Inr (RetNone4, world_ex))"
proof -
  let ?a = "args_ex\<lparr>x_arg := Some [3 / 2, 1 / 2, 3 / 2], v_arg := Some [1, 2, 2]\<rparr>"
  have x: "x_arg ?a = Some [3 / 2, 1 / 2, 3 / 2]" and v: "v_arg ?a = Some [1, 2, 2]" by simp_all
  have r: "reshape_rows (nat_of_sdim (d_arg ?a)) [3 / 2, 1 / 2, 3 / 2 :: real]
             = Inr [[3 / 2], [1 / 2], [3 / 2]]"
    by (simp add: reshape_rows_def args_ex_def upt_rec numeral_3_eq_3)
  have n: "node_index (d_arg ?a) (dimension ?a) (spacing ?a) (origin ?a) [[3 / 2], [1 / 2], [3 / 2]]
             = Inr [1, 0, 1]"
    by (simp add: node_index_def indc_row_def bc_def indc_comp_def astype_int_def args_ex_def)
  have l: "length [1, 2, 2 :: real] = length [[3 / 2], [1 / 2], [3 / 2 :: real]]" by simp
  have i: "0 < length [[3 / 2], [1 / 2], [3 / 2 :: real]]" "2 < length [[3 / 2], [1 / 2], [3 / 2 :: real]]"
    by simp_all
  have e: "[1, 0, 1 :: int] ! 0 = [1, 0, 1] ! 2" "[1, 2, 2 :: real] ! 0 \<noteq> [1, 2, 2] ! 2" by simp_all
  have "pluriGaussianSim env_ex ?a store_ex world_ex = (store_ex, Inr (RetNone4, world_ex))"
    using inconsistent_data_returns_out[OF x v r l n i e, of env_ex store_ex world_ex]
    by (simp add: say_def args_ex_def out_def)
  moreover have "d_arg ?a = D1" "dimension ?a = Seq [2]" "spacing ?a = Scalar 1" "origin ?a = Scalar 0"
    by (simp_all add: args_ex_def)
  ultimately show ?thesis using x v r n e by simp
qed





lemma hd_in_cell:
  assumes "length xs = length indc" "y \<in> set indc"
  obtains k where "k < length indc" "indc ! k = y" "hd (in_cell xs indc y) = xs ! k"
proof -
  have "hd (in_cell xs indc y) \<in> set (in_cell xs indc y)"
    using in_cell_nonempty[OF assms] by simp
  then obtain k where "hd (in_cell xs indc y) = xs ! k" "k < length indc" "indc ! k = y"
    unfolding set_in_cell[OF assms(1)] by blast
  then show ?thesis using that by blast
qed



lemma hd_in_cell_consistent:
  assumes "length v = length indc" "consistent indc v" "k < length indc"
  shows "hd (in_cell v indc (indc ! k)) = v ! k"
proof -
  have "indc ! k \<in> set indc" using assms(3) by simp
  then obtain l where l: "l < length indc" "indc ! l = indc ! k" "hd (in_cell v indc (indc ! k)) = v ! l"
    by (rule hd_in_cell[OF assms(1)])
  have "\<forall>i<length indc. \<forall>j<length indc. indc ! i = indc ! j \<longrightarrow> v ! i = v ! j"
    using assms(2) unfolding consistent_def .
  then have "v ! l = v ! k" using l(1,2) assms(3) by blast
  then show ?thesis using l(3) by simp
qed




















end
